theory Spec2Isabelle
  imports Main "HOL-Library.Word"
begin

unbundle bit_operations_syntax

section \<open>Bytes, opcodes and scalar layouts\<close>

text \<open>
  The pickler of \<^verbatim>\<open>torch/csrc/jit/pickler.cpp\<close> stages its output in a
  \<^verbatim>\<open>std::vector<char>\<close>; the unpickler walks a range of \<^verbatim>\<open>uint8_t\<close>.
  Both are lists of 8-bit words here. A \<^verbatim>\<open>std::string\<close> is the list of its bytes.
\<close>

type_synonym byte = "8 word"

definition byte_of_char :: "char \<Rightarrow> byte" where
  "byte_of_char c = of_char c"

definition bytes_of :: "string \<Rightarrow> byte list" where
  "bytes_of s = map byte_of_char s"

text \<open>
  Modelled from the spec: the enumeration \<^verbatim>\<open>OpCode\<close> is declared in
  \<^verbatim>\<open>pickler.h\<close>, which is not among the sources. The enumerators are the ones section 6
  of the specification lists, with the byte values given there.
\<close>

datatype OpCode =
    MARK | STOP | BININT | BININT1 | LONG1 | BINFLOAT | BINUNICODE
  | EMPTY_LIST | EMPTY_DICT | EMPTY_TUPLE | APPENDS | SETITEMS | TUPLE
  | GLOBAL | REDUCE | NEWOBJ | BUILD | BINPUT | LONG_BINPUT | BINGET
  | LONG_BINGET | BINPERSID | PROTO | NEWTRUE | NEWFALSE | NONE

fun opcode_byte :: "OpCode \<Rightarrow> byte" where
  "opcode_byte MARK = 0x28"
| "opcode_byte STOP = 0x2E"
| "opcode_byte BININT = 0x4A"
| "opcode_byte BININT1 = 0x4B"
| "opcode_byte LONG1 = 0x8A"
| "opcode_byte BINFLOAT = 0x47"
| "opcode_byte BINUNICODE = 0x58"
| "opcode_byte EMPTY_LIST = 0x5D"
| "opcode_byte EMPTY_DICT = 0x7D"
| "opcode_byte EMPTY_TUPLE = 0x29"
| "opcode_byte APPENDS = 0x65"
| "opcode_byte SETITEMS = 0x75"
| "opcode_byte TUPLE = 0x74"
| "opcode_byte GLOBAL = 0x63"
| "opcode_byte REDUCE = 0x52"
| "opcode_byte NEWOBJ = 0x81"
| "opcode_byte BUILD = 0x62"
| "opcode_byte BINPUT = 0x71"
| "opcode_byte LONG_BINPUT = 0x72"
| "opcode_byte BINGET = 0x68"
| "opcode_byte LONG_BINGET = 0x6A"
| "opcode_byte BINPERSID = 0x51"
| "opcode_byte PROTO = 0x80"
| "opcode_byte NEWTRUE = 0x88"
| "opcode_byte NEWFALSE = 0x89"
| "opcode_byte NONE = 0x4E"

text \<open>
  \<^verbatim>\<open>static_cast<OpCode>(read<uint8_t>())\<close>: a byte that is no enumerator falls into the
  \<^verbatim>\<open>default\<close> branch of the decoder's switch, as \<open>None\<close> does here.
\<close>

definition opcode_of_byte :: "byte \<Rightarrow> OpCode option" where
  "opcode_of_byte b =
    (if b = 0x28 then Some MARK else if b = 0x2E then Some STOP
     else if b = 0x4A then Some BININT else if b = 0x4B then Some BININT1
     else if b = 0x8A then Some LONG1 else if b = 0x47 then Some BINFLOAT
     else if b = 0x58 then Some BINUNICODE else if b = 0x5D then Some EMPTY_LIST
     else if b = 0x7D then Some EMPTY_DICT else if b = 0x29 then Some EMPTY_TUPLE
     else if b = 0x65 then Some APPENDS else if b = 0x75 then Some SETITEMS
     else if b = 0x74 then Some TUPLE else if b = 0x63 then Some GLOBAL
     else if b = 0x52 then Some REDUCE else if b = 0x81 then Some NEWOBJ
     else if b = 0x62 then Some BUILD else if b = 0x71 then Some BINPUT
     else if b = 0x72 then Some LONG_BINPUT else if b = 0x68 then Some BINGET
     else if b = 0x6A then Some LONG_BINGET else if b = 0x51 then Some BINPERSID
     else if b = 0x80 then Some PROTO else if b = 0x88 then Some NEWTRUE
     else if b = 0x89 then Some NEWFALSE else if b = 0x4E then Some NONE
     else None)"

definition PROTOCOL_VERSION :: byte where
  "PROTOCOL_VERSION = 2"

text \<open>
  The host is little-endian: \<^verbatim>\<open>push<T>\<close> and \<^verbatim>\<open>read<T>\<close> copy the object
  representation of a \<^verbatim>\<open>T\<close>, least significant byte first.
\<close>

definition word32_bytes :: "32 word \<Rightarrow> byte list" where
  "word32_bytes w =
    [ucast w, ucast (drop_bit 8 w), ucast (drop_bit 16 w), ucast (drop_bit 24 w)]"

definition word64_bytes :: "64 word \<Rightarrow> byte list" where
  "word64_bytes w =
    [ucast w, ucast (drop_bit 8 w), ucast (drop_bit 16 w), ucast (drop_bit 24 w),
     ucast (drop_bit 32 w), ucast (drop_bit 40 w), ucast (drop_bit 48 w),
     ucast (drop_bit 56 w)]"

text \<open>The unsigned number a little-endian byte sequence denotes.\<close>

fun le_value :: "byte list \<Rightarrow> nat" where
  "le_value [] = 0"
| "le_value (b # bs) = unat b + 256 * le_value bs"

definition bytes_word32 :: "byte list \<Rightarrow> 32 word" where
  "bytes_word32 bs = of_nat (le_value bs)"

definition bytes_word64 :: "byte list \<Rightarrow> 64 word" where
  "bytes_word64 bs = of_nat (le_value bs)"

section \<open>Values\<close>

text \<open>
  A tensor handle, with what the pickler reads from it: the scalar type's name
  (\<^verbatim>\<open>toString(tensor.scalar_type())\<close>), sizes, strides, element count, element size,
  the requires-gradient flag and the storage. A storage is identified by the address of its
  \<^verbatim>\<open>StorageImpl\<close> (\<open>storage_key\<close>); \<open>storage_size\<close> is its number of elements and
  \<open>storage_data\<close> the bytes at its data pointer, which are at least the elements' bytes.
\<close>

record Storage =
  storage_key :: "64 word"
  storage_size :: "64 word"
  storage_is_cuda :: bool
  storage_data :: "byte list"

record Tensor =
  scalar_type :: string
  sizes :: "64 word list"
  strides :: "64 word list"
  numel :: "64 word"
  element_size :: "64 word"
  requires_grad :: bool
  storage :: Storage

text \<open>
  The pickler memoizes by the address of the heap object behind a value
  (\<^verbatim>\<open>Pickler::getPointer\<close>). \<open>Obj a\<close> is the address of an object the caller built;
  \<open>Tmp n\<close> is the address of the \<open>n\<close>-th string the pickler allocates itself
  (\<^verbatim>\<open>pushMemoizedString(std::string("storage"))\<close>) and keeps alive in
  \<^verbatim>\<open>memoized_ivalues_\<close>.
\<close>

datatype ptr = Obj nat | Tmp nat

text \<open>
  Modelled from the spec: \<^verbatim>\<open>c10::IValue\<close> is declared outside the sources. Its variants
  are those of section 3 of the specification. Every variant the specification marks as
  memoized carries the address of its heap object; a \<open>Double\<close> is its 64-bit pattern; a
  dictionary is the sequence of pairs in the order \<^verbatim>\<open>iterationOrder()\<close> yields them.
\<close>

datatype IValue =
    VNone
  | VBool bool
  | VInt "64 word"
  | VDouble "64 word"
  | VString ptr "byte list"
  | VTuple ptr "IValue list"
  | VGenericList ptr "IValue list"
  | VGenericDict ptr "(IValue \<times> IValue) list"
  | VIntList ptr "64 word list"
  | VTensor Tensor

section \<open>The pickler\<close>

record Pickler =
  stack :: "byte list"
  memo_map :: "ptr \<rightharpoonup> 32 word"
  memoized_strings_map :: "byte list \<rightharpoonup> 32 word"
  memoized_ivalues :: "IValue list"
  tensor_table :: "Tensor list option"
  literal_tensors :: "Tensor list"
  memo_id :: "32 word"

text \<open>
  A fresh pickler; \<open>tt\<close> is the caller's tensor table (\<open>None\<close> for the null pointer, which
  selects literal tensors).
\<close>

definition new_Pickler :: "Tensor list option \<Rightarrow> Pickler" where
  "new_Pickler tt =
    \<lparr>stack = [], memo_map = Map.empty, memoized_strings_map = Map.empty,
     memoized_ivalues = [], tensor_table = tt, literal_tensors = [], memo_id = 0\<rparr>"

definition push_bytes :: "byte list \<Rightarrow> Pickler \<Rightarrow> Pickler" where
  "push_bytes bs p = p\<lparr>stack := stack p @ bs\<rparr>"

definition push_OpCode :: "OpCode \<Rightarrow> Pickler \<Rightarrow> Pickler" where
  "push_OpCode opc p = push_bytes [opcode_byte opc] p"

definition push_uint8 :: "8 word \<Rightarrow> Pickler \<Rightarrow> Pickler" where
  "push_uint8 w p = push_bytes [w] p"

definition push_int8 :: "8 word \<Rightarrow> Pickler \<Rightarrow> Pickler" where
  "push_int8 w p = push_bytes [w] p"

definition push_int32 :: "32 word \<Rightarrow> Pickler \<Rightarrow> Pickler" where
  "push_int32 w p = push_bytes (word32_bytes w) p"

definition push_uint32 :: "32 word \<Rightarrow> Pickler \<Rightarrow> Pickler" where
  "push_uint32 w p = push_bytes (word32_bytes w) p"

definition push_int64 :: "64 word \<Rightarrow> Pickler \<Rightarrow> Pickler" where
  "push_int64 w p = push_bytes (word64_bytes w) p"

definition pushString :: "byte list \<Rightarrow> Pickler \<Rightarrow> Pickler" where
  "pushString s p = push_bytes s p"

definition start :: "Pickler \<Rightarrow> Pickler" where
  "start p = push_uint8 PROTOCOL_VERSION (push_OpCode PROTO p)"

definition startTuple :: "Pickler \<Rightarrow> Pickler" where
  "startTuple p = push_OpCode MARK p"

definition endTuple :: "Pickler \<Rightarrow> Pickler" where
  "endTuple p = push_OpCode TUPLE p"

text \<open>
  \<^verbatim>\<open>Pickler::pushInt\<close>: the comparisons are signed comparisons of an \<^verbatim>\<open>int64_t\<close>;
  \<^verbatim>\<open>push<int8_t>(n)\<close> and \<^verbatim>\<open>push<int32_t>(n)\<close> truncate.
\<close>

definition pushInt :: "64 word \<Rightarrow> Pickler \<Rightarrow> Pickler" where
  "pushInt n p =
    (if - 128 \<le>s n \<and> n \<le>s 127 then
       push_int8 (ucast n) (push_OpCode BININT1 p)
     else if - 2147483648 \<le>s n \<and> n \<le>s 2147483647 then
       push_int32 (ucast n) (push_OpCode BININT p)
     else
       push_int64 n (push_uint8 8 (push_OpCode LONG1 p)))"

definition pushBinGet :: "32 word \<Rightarrow> Pickler \<Rightarrow> Pickler" where
  "pushBinGet mid p =
    (if mid \<le> 255 then push_uint8 (ucast mid) (push_OpCode BINGET p)
     else push_uint32 mid (push_OpCode LONG_BINGET p))"

text \<open>
  \<^verbatim>\<open>Pickler::pushNextBinPut\<close>. \<^verbatim>\<open>memo_id_\<close> is a \<^verbatim>\<open>uint32_t\<close>, so the
  \<^verbatim>\<open>AT_ASSERT\<close> that it does not exceed the largest \<^verbatim>\<open>uint32_t\<close> cannot fail and the
  increment wraps. The result is \<^verbatim>\<open>memo_id_ - 1\<close>; both callers store it as a
  \<^verbatim>\<open>uint32_t\<close> again.
\<close>

definition pushNextBinPut :: "Pickler \<Rightarrow> 32 word \<times> Pickler" where
  "pushNextBinPut p =
    (let p1 = (if memo_id p \<le> 255
               then push_uint8 (ucast (memo_id p)) (push_OpCode BINPUT p)
               else push_uint32 (memo_id p) (push_OpCode LONG_BINPUT p));
         p2 = p1\<lparr>memo_id := memo_id p1 + 1\<rparr>
     in (memo_id p2 - 1, p2))"

text \<open>\<^verbatim>\<open>Pickler::getPointer\<close>; \<open>None\<close> is the null pointer.\<close>

fun getPointer :: "IValue \<Rightarrow> ptr option" where
  "getPointer (VGenericDict a kvs) = Some a"
| "getPointer (VGenericList a xs) = Some a"
| "getPointer (VTuple a xs) = Some a"
| "getPointer (VString a s) = Some a"
| "getPointer (VIntList a ns) = Some a"
| "getPointer v = None"

text \<open>
  \<^verbatim>\<open>Pickler::pushMemoization\<close>, both overloads. The check that the pointer is not null
  cannot fail at any of its call sites, which pass strings, tuples, lists, dictionaries and
  integer lists only; for any other value the exception is raised after the value was kept.
\<close>

definition pushMemoization_ptr :: "ptr \<Rightarrow> Pickler \<Rightarrow> Pickler" where
  "pushMemoization_ptr item p =
    (let (mid, p1) = pushNextBinPut p
     in p1\<lparr>memo_map := (memo_map p1)(item \<mapsto> mid)\<rparr>)"

definition pushMemoization :: "IValue \<Rightarrow> Pickler \<Rightarrow> Pickler" where
  "pushMemoization v p =
    (let p1 = p\<lparr>memoized_ivalues := memoized_ivalues p @ [v]\<rparr>
     in case getPointer v of
          Some item \<Rightarrow> pushMemoization_ptr item p1
        | None \<Rightarrow> p1)"

definition string_bytes :: "IValue \<Rightarrow> byte list" where
  "string_bytes v = (case v of VString a s \<Rightarrow> s | _ \<Rightarrow> [])"

text \<open>\<^verbatim>\<open>Pickler::pushMemoizedString\<close>; the length is pushed as a \<^verbatim>\<open>uint32_t\<close>.\<close>

definition pushMemoizedString :: "IValue \<Rightarrow> Pickler \<Rightarrow> Pickler" where
  "pushMemoizedString v p =
    (let s = string_bytes v;
         p1 = push_OpCode BINUNICODE p;
         p2 = push_uint32 (of_nat (length s)) p1;
         p3 = pushString s p2
     in pushMemoization v p3)"

definition pushGlobal :: "byte list \<Rightarrow> Pickler \<Rightarrow> Pickler" where
  "pushGlobal name_temp p =
    (case memoized_strings_map p name_temp of
       None \<Rightarrow>
         (let p1 = push_OpCode GLOBAL p;
              p2 = pushString name_temp p1;
              (mid, p3) = pushNextBinPut p2
          in p3\<lparr>memoized_strings_map := (memoized_strings_map p3)(name_temp \<mapsto> mid)\<rparr>)
     | Some mid \<Rightarrow> pushBinGet mid p)"

datatype PicklerClass = TENSOR | INTLIST

fun getClassName :: "PicklerClass \<Rightarrow> byte list" where
  "getClassName TENSOR = bytes_of ''build_tensor_from_id\<newline>''"
| "getClassName INTLIST = bytes_of ''build_intlist\<newline>''"

definition getModuleName :: "byte list" where
  "getModuleName = bytes_of ''torch.jit._pickle\<newline>''"

definition pushClass :: "PicklerClass \<Rightarrow> Pickler \<Rightarrow> Pickler" where
  "pushClass cls p = pushGlobal (getModuleName @ getClassName cls) p"

text \<open>\<^verbatim>\<open>Pickler::pushDouble\<close>: the eight bytes of the double, most significant first.\<close>

definition pushDouble :: "64 word \<Rightarrow> Pickler \<Rightarrow> Pickler" where
  "pushDouble d p = push_bytes (rev (word64_bytes d)) (push_OpCode BINFLOAT p)"

text \<open>\<^verbatim>\<open>std::to_string\<close> of an unsigned number: its decimal digits.\<close>

function to_string :: "nat \<Rightarrow> byte list" where
  "to_string n =
    (if n < 10 then [48 + of_nat n]
     else to_string (n div 10) @ [48 + of_nat (n mod 10)])"
  by pat_completeness auto
termination
  by (relation "measure id") auto

declare to_string.simps [simp del]

definition getStorageKey :: "Tensor \<Rightarrow> 64 word" where
  "getStorageKey t = storage_key (storage t)"

text \<open>
  The walk over a value. \<^verbatim>\<open>Pickler::addIValue\<close> first looks the value's pointer up in
  \<^verbatim>\<open>memo_map_\<close>, then dispatches on the tag in the order of the source. The functions it
  dispatches to call it again on the elements, so they are defined together with it.
  \<^verbatim>\<open>pushTuple\<close>, \<^verbatim>\<open>pushList\<close>, \<^verbatim>\<open>pushDict\<close> and \<^verbatim>\<open>pushIntList\<close> receive the
  value as its address and its content.
\<close>

text \<open>The measure that decreases along the calls of the walk.\<close>

fun addIValue_weight :: "IValue \<Rightarrow> nat" where
  "addIValue_weight (VInt n) = 0"
| "addIValue_weight (VBool b) = 0"
| "addIValue_weight v = 4 * size v + 3"

definition walk_measure ::
  "(((IValue \<times> Pickler) + (Tensor \<times> Pickler)) +
    ((Tensor \<times> Pickler) + (Tensor \<times> Pickler))) +
   (((ptr \<times> 64 word list \<times> Pickler) + (ptr \<times> (IValue \<times> IValue) list \<times> Pickler)) +
    ((ptr \<times> IValue list \<times> Pickler) + (ptr \<times> IValue list \<times> Pickler))) \<Rightarrow> nat" where
  "walk_measure x =
    (case x of
       Inl (Inl (Inl (v, p))) \<Rightarrow> addIValue_weight v
     | Inl (Inl (Inr (t, p))) \<Rightarrow> 2
     | Inl (Inr (Inl (t, p))) \<Rightarrow> 1
     | Inl (Inr (Inr (t, p))) \<Rightarrow> 1
     | Inr (Inl (Inl (a, ns, p))) \<Rightarrow> 1
     | Inr (Inl (Inr (a, kvs, p))) \<Rightarrow> 4 * size_list (size_prod size size) kvs + 1
     | Inr (Inr (Inl (a, xs, p))) \<Rightarrow> 4 * size_list size xs + 1
     | Inr (Inr (Inr (a, xs, p))) \<Rightarrow> 4 * size_list size xs + 1)"

function addIValue :: "IValue \<Rightarrow> Pickler \<Rightarrow> Pickler"
  and pushTensor :: "Tensor \<Rightarrow> Pickler \<Rightarrow> Pickler"
  and pushLiteralTensor :: "Tensor \<Rightarrow> Pickler \<Rightarrow> Pickler"
  and pushTensorReference :: "Tensor \<Rightarrow> Pickler \<Rightarrow> Pickler"
  and pushIntList :: "ptr \<Rightarrow> 64 word list \<Rightarrow> Pickler \<Rightarrow> Pickler"
  and pushDict :: "ptr \<Rightarrow> (IValue \<times> IValue) list \<Rightarrow> Pickler \<Rightarrow> Pickler"
  and pushList :: "ptr \<Rightarrow> IValue list \<Rightarrow> Pickler \<Rightarrow> Pickler"
  and pushTuple :: "ptr \<Rightarrow> IValue list \<Rightarrow> Pickler \<Rightarrow> Pickler"
where
  "addIValue v p =
    (case (case getPointer v of None \<Rightarrow> None | Some a \<Rightarrow> memo_map p a) of
       Some mid \<Rightarrow> pushBinGet mid p
     | None \<Rightarrow>
        (case v of
           VTensor t \<Rightarrow> pushTensor t p
         | VTuple a xs \<Rightarrow> pushTuple a xs p
         | VDouble d \<Rightarrow> pushDouble d p
         | VInt n \<Rightarrow> pushInt n p
         | VBool b \<Rightarrow> (if b then push_OpCode NEWTRUE p else push_OpCode NEWFALSE p)
         | VString a s \<Rightarrow> pushMemoizedString v p
         | VGenericList a xs \<Rightarrow> pushList a xs p
         | VGenericDict a kvs \<Rightarrow> pushDict a kvs p
         | VNone \<Rightarrow> push_OpCode NONE p
         | VIntList a ns \<Rightarrow> pushIntList a ns p))"
| "pushTensor t p =
    (case tensor_table p of
       None \<Rightarrow> pushLiteralTensor t p
     | Some tt \<Rightarrow> pushTensorReference t p)"
| "pushLiteralTensor t p =
    (let p = pushGlobal (bytes_of ''torch._utils\<newline>_rebuild_tensor_v2\<newline>'') p;
         p = push_OpCode MARK p;
         p = push_OpCode MARK p;
         p = pushMemoizedString
               (VString (Tmp (length (memoized_ivalues p))) (bytes_of ''storage'')) p;
         p = pushGlobal
               (bytes_of ''torch\<newline>'' @ bytes_of (scalar_type t) @ bytes_of ''Storage\<newline>'') p;
         p = pushMemoizedString
               (VString (Tmp (length (memoized_ivalues p)))
                  (to_string (unat (getStorageKey t)))) p;
         p = pushMemoizedString
               (VString (Tmp (length (memoized_ivalues p))) (bytes_of ''cpu'')) p;
         p = pushInt (numel t) p;
         p = push_OpCode NONE p;
         p = push_OpCode TUPLE p;
         p = push_OpCode BINPERSID p;
         p = pushInt 0 p;
         p = push_OpCode MARK p;
         p = fold pushInt (sizes t) p;
         p = push_OpCode TUPLE p;
         p = push_OpCode MARK p;
         p = fold pushInt (strides t) p;
         p = push_OpCode TUPLE p;
         p = addIValue (VBool (requires_grad t)) p;
         p = pushGlobal (bytes_of ''collections\<newline>OrderedDict\<newline>'') p;
         p = push_OpCode EMPTY_TUPLE p;
         p = push_OpCode REDUCE p;
         p = push_OpCode TUPLE p;
         p = push_OpCode REDUCE p
     in p\<lparr>literal_tensors := literal_tensors p @ [t]\<rparr>)"
| "pushTensorReference t p =
    (let p = pushClass TENSOR p;
         tt = (case tensor_table p of None \<Rightarrow> [] | Some ts \<Rightarrow> ts) @ [t];
         p = p\<lparr>tensor_table := Some tt\<rparr>;
         tensor_id = (of_nat (length tt) - 1 :: 64 word);
         p = push_OpCode MARK p;
         p = addIValue (VInt tensor_id) p;
         p = push_OpCode TUPLE p
     in push_OpCode REDUCE p)"
| "pushIntList a ns p =
    (let p = pushClass INTLIST p;
         p = push_OpCode MARK p;
         p = push_OpCode EMPTY_LIST p;
         p = push_OpCode MARK p;
         p = fold (\<lambda>item. addIValue (VInt item)) ns p;
         p = push_OpCode APPENDS p;
         p = push_OpCode TUPLE p;
         p = push_OpCode REDUCE p
     in pushMemoization (VIntList a ns) p)"
| "pushDict a kvs p =
    (let p = push_OpCode EMPTY_DICT p;
         p = pushMemoization (VGenericDict a kvs) p;
         p = push_OpCode MARK p;
         p = fold (\<lambda>pair q. addIValue (snd pair) (addIValue (fst pair) q)) kvs p
     in push_OpCode SETITEMS p)"
| "pushList a xs p =
    (let p = push_OpCode EMPTY_LIST p;
         p = pushMemoization (VGenericList a xs) p;
         p = push_OpCode MARK p;
         p = fold addIValue xs p
     in push_OpCode APPENDS p)"
| "pushTuple a xs p =
    (let p = push_OpCode MARK p;
         p = fold addIValue xs p;
         p = push_OpCode TUPLE p
     in pushMemoization (VTuple a xs) p)"
  by pat_completeness auto

lemma addIValue_weight_le: "addIValue_weight v \<le> 4 * size v + 3"
  by (cases v) simp_all

lemma size_list_member: "x \<in> set xs \<Longrightarrow> f x < size_list f xs"
  by (induction xs) auto

lemma weight_element: "x \<in> set xs \<Longrightarrow> addIValue_weight x < 4 * size_list size xs + 1"
  using addIValue_weight_le [of x] size_list_member [of x xs size] by simp

lemma weight_fst:
  "pr \<in> set kvs \<Longrightarrow> addIValue_weight (fst pr) < 4 * size_list (size_prod size size) kvs + 1"
  using addIValue_weight_le [of "fst pr"] size_list_member [of pr kvs "size_prod size size"]
  by (cases pr) simp

lemma weight_snd:
  "pr \<in> set kvs \<Longrightarrow> addIValue_weight (snd pr) < 4 * size_list (size_prod size size) kvs + 1"
  using addIValue_weight_le [of "snd pr"] size_list_member [of pr kvs "size_prod size size"]
  by (cases pr) simp

termination addIValue
  apply (relation "measure walk_measure")
  subgoal by simp
  subgoal by (simp add: walk_measure_def)
  subgoal by (simp add: walk_measure_def)
  subgoal by (simp add: walk_measure_def)
  subgoal by (simp add: walk_measure_def)
  subgoal by (simp add: walk_measure_def)
  subgoal by (simp add: walk_measure_def)
  subgoal by (simp add: walk_measure_def)
  subgoal by (simp (no_asm) add: walk_measure_def)
  subgoal by (simp (no_asm) add: walk_measure_def)
  subgoal by (simp (no_asm) add: walk_measure_def)
  subgoal for a kvs p x xa xb xc xd
    using weight_fst [of xc kvs] by (simp (no_asm_use) add: walk_measure_def)
  subgoal for a kvs p x xa xb xc xd
    using weight_snd [of xc kvs] by (simp (no_asm_use) add: walk_measure_def)
  subgoal for a xs p x xa xb xc xd
    using weight_element [of xc xs] by (simp (no_asm_use) add: walk_measure_def)
  subgoal for a xs p x xa xb
    using weight_element [of xa xs] by (simp (no_asm_use) add: walk_measure_def)
  done

text \<open>
  The recursive equations rewrite a call into a term that contains calls again; they are
  used by name only.
\<close>

declare addIValue.simps [simp del] pushTensor.simps [simp del]
  pushLiteralTensor.simps [simp del] pushTensorReference.simps [simp del]
  pushIntList.simps [simp del] pushDict.simps [simp del] pushList.simps [simp del]
  pushTuple.simps [simp del]

text \<open>
  Modelled from the spec: \<^verbatim>\<open>getWriteableTensor\<close> copies a CUDA tensor to the CPU with
  ATen operations that are not among the sources (section 4.3: a CPU view of the same
  storage). The copy holds the bytes of the storage; the record size is
  \<^verbatim>\<open>element_size * storage().size()\<close>, a \<^verbatim>\<open>uint64_t\<close>. The check that the copy has
  the record size holds for such a copy.
\<close>

definition getWriteableTensor :: "Tensor \<Rightarrow> Tensor \<times> 64 word" where
  "getWriteableTensor t =
    (let record_size = element_size t * storage_size (storage t);
         storage_tensor =
           (if storage_is_cuda (storage t)
            then t\<lparr>sizes := [storage_size (storage t)], strides := [1],
                   storage := (storage t)\<lparr>storage_is_cuda := False\<rparr>\<rparr>
            else t)
     in (storage_tensor, record_size))"

definition pushTensorData :: "Tensor \<Rightarrow> Pickler \<Rightarrow> Pickler" where
  "pushTensorData t p =
    (let p = push_bytes (word64_bytes (numel t)) p;
         (storage_tensor, record_size) = getWriteableTensor t
     in push_bytes (take (unat record_size) (storage_data (storage storage_tensor))) p)"

text \<open>
  \<^verbatim>\<open>Pickler::finish\<close>: \<^verbatim>\<open>STOP\<close>; then, when literal tensors were collected, a second
  program with one key string for each tensor, and the tensors' data.
\<close>

definition finish :: "Pickler \<Rightarrow> Pickler" where
  "finish p =
    (let p = push_OpCode STOP p
     in if literal_tensors p \<noteq> [] then
          (let p = start p;
               p = push_OpCode MARK p;
               p = fold (\<lambda>t q.
                     (let key = to_string (unat (getStorageKey t));
                          q = push_OpCode BINUNICODE q;
                          q = push_uint32 (of_nat (length key)) q
                      in pushString key q)) (literal_tensors p) p;
               p = push_OpCode TUPLE p;
               p = push_OpCode STOP p
           in fold pushTensorData (literal_tensors p) p)
        else p)"

section \<open>The unpickler\<close>

text \<open>
  How a decoding session can end other than with a result. The first group are the
  exceptions the code raises itself (\<^verbatim>\<open>AT_CHECK\<close>, \<^verbatim>\<open>AT_ERROR\<close>, \<^verbatim>\<open>AT_ASSERT\<close>, and
  the tag assertions of the \<^verbatim>\<open>IValue\<close> accessors); \<open>OutOfRange\<close> is the exception
  of \<^verbatim>\<open>std::vector::at\<close>, \<open>LengthError\<close> and \<open>BadAlloc\<close> are the exceptions of
  \<^verbatim>\<open>std::vector::reserve\<close> (a size beyond \<^verbatim>\<open>max_size()\<close>, an allocation that the
  host does not grant); the last group are the places where the code goes on without a check and C++ leaves the behaviour
  undefined: \<^verbatim>\<open>back()\<close> or \<^verbatim>\<open>pop_back()\<close> of an empty vector, an index past the end of a
  vector, a read of the input at or beyond \<^verbatim>\<open>end_ptr_\<close>, a null tensor table.
\<close>

datatype error =
    ExpectedPROTO
  | UnsupportedProtocol byte
  | MissingSTOP
  | UnknownOpcode byte
  | ReadOverrun
  | EmptyStack
  | BadPicklerClass
  | UnknownListSpecialization
  | UnknownClassName
  | UnknownPicklerClassId
  | IllegalIdentifierChar byte
  | StringOverrun
  | ExpectedOneElement nat
  | AssertFailed
  | TagMismatch
  | WrongStackEntry
  | OutOfRange
  | LengthError
  | BadAlloc
  | UB_back_of_empty
  | UB_pop_back_of_empty
  | UB_index_past_end
  | UB_read_past_end
  | UB_null_tensor_table

definition bind :: "error + 'a \<Rightarrow> ('a \<Rightarrow> error + 'b) \<Rightarrow> error + 'b" where
  "bind m f = (case m of Inl e \<Rightarrow> Inl e | Inr x \<Rightarrow> f x)"

text \<open>
  The values the unpickler builds. Lists, integer lists and dictionaries are objects it
  goes on changing through their pointer after it has pushed them (\<^verbatim>\<open>APPENDS\<close>,
  \<^verbatim>\<open>SETITEMS\<close>), while other stack and memo entries point to the same object: such a value
  is a reference into a store of objects. Strings and tuples are not changed once pushed.
\<close>

datatype UValue =
    UNone
  | UBool bool
  | UInt "64 word"
  | UDouble "64 word"
  | UString "byte list"
  | UTuple "UValue list"
  | UGenericList nat
  | UGenericDict nat
  | UIntList nat
  | UTensor Tensor

datatype HeapObj =
    HGenericList "UValue list"
  | HGenericDict "(UValue \<times> UValue) list"
  | HIntList "64 word list"

text \<open>
  Modelled from the spec: \<^verbatim>\<open>StackEntry\<close> is declared in \<^verbatim>\<open>pickler.h\<close>. A stack entry
  is a value or a class marker (section 4.2). The specification does not say what an
  accessor does on an entry of the other kind; here the session ends with
  \<open>WrongStackEntry\<close>.
\<close>

datatype StackEntry = IV UValue | PC PicklerClass

definition ivalue :: "StackEntry \<Rightarrow> error + UValue" where
  "ivalue e = (case e of IV v \<Rightarrow> Inr v | PC c \<Rightarrow> Inl WrongStackEntry)"

definition pickler_class :: "StackEntry \<Rightarrow> error + PicklerClass" where
  "pickler_class e = (case e of PC c \<Rightarrow> Inr c | IV v \<Rightarrow> Inl WrongStackEntry)"

definition pickler_class_opt :: "StackEntry \<Rightarrow> PicklerClass option" where
  "pickler_class_opt e = (case e of PC c \<Rightarrow> Some c | IV v \<Rightarrow> None)"

text \<open>
  The state of an \<^verbatim>\<open>Unpickler\<close>. \<open>bytes\<close> is the input range and \<open>pos\<close> the offset of
  the cursor \<^verbatim>\<open>bytes_\<close> in it, so \<^verbatim>\<open>end_ptr_\<close> is at offset \<open>length (bytes s)\<close>.
  \<open>vstack\<close> is \<^verbatim>\<open>stack_\<close>, with the top at the end as in the vector;
  \<open>tensors\<close> is \<^verbatim>\<open>tensor_table_\<close> (\<open>None\<close> for a null pointer); \<open>heap\<close> is the store
  of the list and dictionary objects, a reference being an index into it.
\<close>

record Unpickler =
  bytes :: "byte list"
  pos :: nat
  vstack :: "StackEntry list"
  marks :: "nat list"
  memo_table :: "StackEntry list"
  tensors :: "Tensor list option"
  last_opcode :: OpCode
  heap :: "HeapObj list"

definition new_Unpickler :: "byte list \<Rightarrow> Tensor list option \<Rightarrow> Unpickler" where
  "new_Unpickler data tt =
    \<lparr>bytes = data, pos = 0, vstack = [], marks = [], memo_table = [], tensors = tt,
     last_opcode = STOP, heap = []\<rparr>"

text \<open>
  Modelled from the spec: \<^verbatim>\<open>Unpickler::read<T>\<close> is a template of \<^verbatim>\<open>pickler.h\<close>. It
  takes the next \<^verbatim>\<open>sizeof(T)\<close> bytes as a \<open>T\<close>; a truncated operand is an error
  (section 7), and no byte at or beyond the end is read.
\<close>

definition read_bytes :: "nat \<Rightarrow> Unpickler \<Rightarrow> error + (byte list \<times> Unpickler)" where
  "read_bytes n s =
    (if pos s + n \<le> length (bytes s)
     then Inr (take n (drop (pos s) (bytes s)), s\<lparr>pos := pos s + n\<rparr>)
     else Inl ReadOverrun)"

definition read_uint8 :: "Unpickler \<Rightarrow> error + (8 word \<times> Unpickler)" where
  "read_uint8 s = bind (read_bytes 1 s) (\<lambda>(bs, s). Inr (hd bs, s))"

definition read_int8 :: "Unpickler \<Rightarrow> error + (8 word \<times> Unpickler)" where
  "read_int8 s = bind (read_bytes 1 s) (\<lambda>(bs, s). Inr (hd bs, s))"

definition read_int32 :: "Unpickler \<Rightarrow> error + (32 word \<times> Unpickler)" where
  "read_int32 s = bind (read_bytes 4 s) (\<lambda>(bs, s). Inr (bytes_word32 bs, s))"

definition read_uint32 :: "Unpickler \<Rightarrow> error + (32 word \<times> Unpickler)" where
  "read_uint32 s = bind (read_bytes 4 s) (\<lambda>(bs, s). Inr (bytes_word32 bs, s))"

definition read_int64 :: "Unpickler \<Rightarrow> error + (64 word \<times> Unpickler)" where
  "read_int64 s = bind (read_bytes 8 s) (\<lambda>(bs, s). Inr (bytes_word64 bs, s))"

text \<open>
  \<^verbatim>\<open>Unpickler::readOpCode\<close>. The byte is returned with the opcode, for the message of the
  \<^verbatim>\<open>default\<close> branch.
\<close>

definition readOpCode :: "Unpickler \<Rightarrow> error + ((OpCode option \<times> byte) \<times> Unpickler)" where
  "readOpCode s = bind (read_uint8 s) (\<lambda>(b, s). Inr ((opcode_of_byte b, b), s))"

text \<open>
  \<^verbatim>\<open>Unpickler::readFloat\<close>: the assertion asks for more than eight bytes before the end;
  the eight bytes are copied in reverse order into the double.
\<close>

definition readFloat :: "Unpickler \<Rightarrow> error + (64 word \<times> Unpickler)" where
  "readFloat s =
    (if pos s + 8 < length (bytes s)
     then Inr (bytes_word64 (rev (take 8 (drop (pos s) (bytes s)))), s\<lparr>pos := pos s + 8\<rparr>)
     else Inl AssertFailed)"

definition is_valid_python_id_char :: "byte \<Rightarrow> bool" where
  "is_valid_python_id_char c \<longleftrightarrow>
     c = 0x5F \<or> c = 0x2E \<or> (0x30 \<le> c \<and> c \<le> 0x39) \<or> (0x61 \<le> c \<and> c \<le> 0x7A)
     \<or> (0x41 \<le> c \<and> c \<le> 0x5A)"

text \<open>
  The loop of \<^verbatim>\<open>Unpickler::readString\<close>, as a function of \<open>n\<close>. Each turn reads
  \<^verbatim>\<open>chars[n]\<close> first; the comparison with the end comes after the increment, at the end of
  the turn. A read at an offset that is not below the length of the input is a read at or
  beyond \<^verbatim>\<open>end_ptr_\<close>.
\<close>

function readString_loop :: "Unpickler \<Rightarrow> nat \<Rightarrow> error + nat" where
  "readString_loop s n =
    (if pos s + n < length (bytes s) then
       (let c = bytes s ! (pos s + n)
        in if c = 0x0A then Inr n
           else if \<not> is_valid_python_id_char c then Inl (IllegalIdentifierChar c)
           else if pos s + (n + 1) < length (bytes s) then readString_loop s (n + 1)
           else Inl StringOverrun)
     else Inl UB_read_past_end)"
  by pat_completeness auto
termination
  by (relation "measure (\<lambda>(s, n). length (bytes s) - (pos s + n))") auto

declare readString_loop.simps [simp del]

definition readString :: "Unpickler \<Rightarrow> error + (byte list \<times> Unpickler)" where
  "readString s =
    bind (readString_loop s 0)
      (\<lambda>n. Inr (take n (drop (pos s) (bytes s)), s\<lparr>pos := pos s + (n + 1)\<rparr>))"

text \<open>\<^verbatim>\<open>getClass\<close>, with its two pairs of names.\<close>

definition getClass :: "byte list \<Rightarrow> error + PicklerClass" where
  "getClass str =
    (if str = bytes_of ''build_tensor_from_id'' then Inr TENSOR
     else if str = bytes_of ''build_intlist'' then Inr INTLIST
     else if str = bytes_of ''TensorID'' then Inr TENSOR
     else if str = bytes_of ''IntList'' then Inr INTLIST
     else Inl UnknownClassName)"

text \<open>The accessors of \<^verbatim>\<open>IValue\<close> the unpickler uses; each asserts the tag.\<close>

definition toInt :: "UValue \<Rightarrow> error + 64 word" where
  "toInt v = (case v of UInt n \<Rightarrow> Inr n | _ \<Rightarrow> Inl TagMismatch)"

definition toTuple :: "UValue \<Rightarrow> error + UValue list" where
  "toTuple v = (case v of UTuple xs \<Rightarrow> Inr xs | _ \<Rightarrow> Inl TagMismatch)"

definition heap_at :: "Unpickler \<Rightarrow> nat \<Rightarrow> HeapObj option" where
  "heap_at s r = (if r < length (heap s) then Some (heap s ! r) else None)"

definition toIntListRef :: "Unpickler \<Rightarrow> UValue \<Rightarrow> error + 64 word list" where
  "toIntListRef s v =
    (case v of
       UIntList r \<Rightarrow> (case heap_at s r of Some (HIntList ns) \<Rightarrow> Inr ns | _ \<Rightarrow> Inl TagMismatch)
     | _ \<Rightarrow> Inl TagMismatch)"

definition toGenericListRef :: "Unpickler \<Rightarrow> UValue \<Rightarrow> error + UValue list" where
  "toGenericListRef s v =
    (case v of
       UGenericList r \<Rightarrow>
         (case heap_at s r of Some (HGenericList xs) \<Rightarrow> Inr xs | _ \<Rightarrow> Inl TagMismatch)
     | _ \<Rightarrow> Inl TagMismatch)"

definition toGenericDict :: "Unpickler \<Rightarrow> UValue \<Rightarrow> error + (nat \<times> (UValue \<times> UValue) list)" where
  "toGenericDict s v =
    (case v of
       UGenericDict r \<Rightarrow>
         (case heap_at s r of Some (HGenericDict kvs) \<Rightarrow> Inr (r, kvs) | _ \<Rightarrow> Inl TagMismatch)
     | _ \<Rightarrow> Inl TagMismatch)"

definition isIntList :: "UValue \<Rightarrow> bool" where
  "isIntList v = (case v of UIntList r \<Rightarrow> True | _ \<Rightarrow> False)"

definition isGenericList :: "UValue \<Rightarrow> bool" where
  "isGenericList v = (case v of UGenericList r \<Rightarrow> True | _ \<Rightarrow> False)"

text \<open>Pushing onto \<^verbatim>\<open>stack_\<close>, and a new object in the store with the reference to it.\<close>

definition push_entry :: "StackEntry \<Rightarrow> Unpickler \<Rightarrow> Unpickler" where
  "push_entry e s = s\<lparr>vstack := vstack s @ [e]\<rparr>"

definition alloc :: "HeapObj \<Rightarrow> Unpickler \<Rightarrow> nat \<times> Unpickler" where
  "alloc obj s = (length (heap s), s\<lparr>heap := heap s @ [obj]\<rparr>)"

definition push_new_IntList :: "64 word list \<Rightarrow> Unpickler \<Rightarrow> Unpickler" where
  "push_new_IntList ns s = (let (r, s) = alloc (HIntList ns) s in push_entry (IV (UIntList r)) s)"

definition push_new_GenericList :: "UValue list \<Rightarrow> Unpickler \<Rightarrow> Unpickler" where
  "push_new_GenericList xs s =
    (let (r, s) = alloc (HGenericList xs) s in push_entry (IV (UGenericList r)) s)"

definition push_new_GenericDict :: "Unpickler \<Rightarrow> Unpickler" where
  "push_new_GenericDict s =
    (let (r, s) = alloc (HGenericDict []) s in push_entry (IV (UGenericDict r)) s)"

text \<open>
  Modelled from the spec: the dictionary type is declared outside the sources. It is a
  mapping with a declared iteration order (section 3): \<^verbatim>\<open>elements()[k] = v\<close> replaces the
  value of a key that is present and puts a new key last.
\<close>

fun dict_insert :: "'k \<Rightarrow> 'v \<Rightarrow> ('k \<times> 'v) list \<Rightarrow> ('k \<times> 'v) list" where
  "dict_insert k v [] = [(k, v)]"
| "dict_insert k v ((k', v') # kvs) =
    (if k = k' then (k, v) # kvs else (k', v') # dict_insert k v kvs)"

text \<open>
  The value of each stack entry of a range, in order. The first entry that is no value, or
  no integer, ends the session.
\<close>

fun ivalues :: "StackEntry list \<Rightarrow> error + UValue list" where
  "ivalues [] = Inr []"
| "ivalues (e # es) =
    bind (ivalue e) (\<lambda>v. bind (ivalues es) (\<lambda>vs. Inr (v # vs)))"

fun toInts :: "StackEntry list \<Rightarrow> error + 64 word list" where
  "toInts [] = Inr []"
| "toInts (e # es) =
    bind (ivalue e) (\<lambda>v. bind (toInt v) (\<lambda>n. bind (toInts es) (\<lambda>ns. Inr (n # ns))))"

text \<open>
  What the sources do not fix is the parameter \<open>tag\<close> of the functions below. The
  enumerators of \<^verbatim>\<open>PicklerClass\<close> are declared in \<^verbatim>\<open>pickler.h\<close> with underlying type
  \<^verbatim>\<open>uint8_t\<close>; \<open>enumerator tag c\<close> is the value of the enumerator \<open>c\<close>. A
  \<^verbatim>\<open>static_cast<PicklerClass>\<close> of a byte is compared with an enumerator by comparing
  the byte with the enumerator's value. \<^verbatim>\<open>memo_table_.reserve(n)\<close> asks the host for the
  memory of \<open>n\<close> entries, where \<open>n\<close> comes from the memo id in the input;
  \<open>reserve_granted tag n\<close> says whether the host's allocator grants it.
\<close>

record Host =
  enumerator :: "PicklerClass \<Rightarrow> byte"
  reserve_granted :: "nat \<Rightarrow> bool"

text \<open>\<^verbatim>\<open>case OpCode::EMPTY_LIST\<close>.\<close>

definition case_EMPTY_LIST :: "Host \<Rightarrow> Unpickler \<Rightarrow> error + Unpickler" where
  "case_EMPTY_LIST tag s =
    (if last_opcode s = NEWOBJ then
       (if \<not> length (vstack s) > 0 then Inl EmptyStack
        else
          bind (ivalue (last (vstack s))) (\<lambda>v.
          bind (toInt v) (\<lambda>val.
            if \<not> (0 \<le>s val \<and> val \<le>s 255) then Inl BadPicklerClass
            else if (ucast val :: byte) = enumerator tag INTLIST then Inr (push_new_IntList [] s)
            else Inr s)))
     else if length (vstack s) > 0 \<and> pickler_class_opt (last (vstack s)) \<noteq> None then
       bind (pickler_class (last (vstack s))) (\<lambda>c.
         if c = INTLIST then Inr (push_new_IntList [] s)
         else Inl UnknownListSpecialization)
     else Inr (push_new_GenericList [] s))"

text \<open>
  \<^verbatim>\<open>case OpCode::BINPUT\<close> and \<^verbatim>\<open>case OpCode::LONG_BINPUT\<close>: the memo id \<open>mid\<close> is read;
  when the size of the table is not above it, \<^verbatim>\<open>memo_table_.reserve(1 + 2 * memo_id)\<close>
  is called, which throws \<^verbatim>\<open>std::bad_alloc\<close> when the host does not grant the memory
  and changes nothing but the capacity otherwise (the size asked for is below \<open>2^34\<close>
  entries, never beyond \<^verbatim>\<open>max_size()\<close>); then \<^verbatim>\<open>memo_table_.push_back(stack_.back())\<close>.
  The check of \<^verbatim>\<open>LONG_BINPUT\<close> that a \<^verbatim>\<open>size_t\<close> holds every \<^verbatim>\<open>uint32_t\<close> compares
  two constants and holds on a 64-bit host.
\<close>

definition memo_reserve :: "Host \<Rightarrow> nat \<Rightarrow> Unpickler \<Rightarrow> error + Unpickler" where
  "memo_reserve tag mid s =
    (if length (memo_table s) \<le> mid then
       (if reserve_granted tag (1 + 2 * mid) then Inr s else Inl BadAlloc)
     else Inr s)"

definition memo_push_back :: "Unpickler \<Rightarrow> error + Unpickler" where
  "memo_push_back s =
    (if vstack s = [] then Inl UB_back_of_empty
     else Inr (s\<lparr>memo_table := memo_table s @ [last (vstack s)]\<rparr>))"

definition case_BINPUT :: "Host \<Rightarrow> Unpickler \<Rightarrow> error + Unpickler" where
  "case_BINPUT tag s =
    bind (read_uint8 s) (\<lambda>(mid, s).
    bind (memo_reserve tag (unat mid) s) (\<lambda>s. memo_push_back s))"

definition case_LONG_BINPUT :: "Host \<Rightarrow> Unpickler \<Rightarrow> error + Unpickler" where
  "case_LONG_BINPUT tag s =
    bind (read_uint32 s) (\<lambda>(mid, s).
    bind (memo_reserve tag (unat mid) s) (\<lambda>s. memo_push_back s))"

definition case_MARK :: "Unpickler \<Rightarrow> error + Unpickler" where
  "case_MARK s = Inr (s\<lparr>marks := marks s @ [length (vstack s)]\<rparr>)"

definition case_BININT1 :: "Unpickler \<Rightarrow> error + Unpickler" where
  "case_BININT1 s =
    bind (read_int8 s) (\<lambda>(val, s). Inr (push_entry (IV (UInt (scast val))) s))"

definition case_BININT :: "Unpickler \<Rightarrow> error + Unpickler" where
  "case_BININT s =
    bind (read_int32 s) (\<lambda>(val, s). Inr (push_entry (IV (UInt (scast val))) s))"

definition case_LONG1 :: "Unpickler \<Rightarrow> error + Unpickler" where
  "case_LONG1 s =
    bind (read_uint8 s) (\<lambda>(len, s).
      if len \<noteq> 8 then Inl AssertFailed
      else bind (read_int64 s) (\<lambda>(val, s). Inr (push_entry (IV (UInt val)) s)))"

definition case_BINUNICODE :: "Unpickler \<Rightarrow> error + Unpickler" where
  "case_BINUNICODE s =
    bind (read_uint32 s) (\<lambda>(len, s).
      if \<not> pos s + unat len < length (bytes s) then Inl AssertFailed
      else Inr (push_entry (IV (UString (take (unat len) (drop (pos s) (bytes s)))))
                  (s\<lparr>pos := pos s + unat len\<rparr>)))"

definition case_BINFLOAT :: "Unpickler \<Rightarrow> error + Unpickler" where
  "case_BINFLOAT s = bind (readFloat s) (\<lambda>(d, s). Inr (push_entry (IV (UDouble d)) s))"

text \<open>
  \<^verbatim>\<open>case OpCode::TUPLE\<close>. \<^verbatim>\<open>marks_.back()\<close> is taken without a check.
  \<^verbatim>\<open>reserve(stack_.size() - start)\<close> is asked for a wrapped-around size when the mark is
  above the stack.
\<close>

definition case_TUPLE :: "Unpickler \<Rightarrow> error + Unpickler" where
  "case_TUPLE s =
    (if marks s = [] then Inl UB_back_of_empty
     else
       (let start_ix = last (marks s);
            s = s\<lparr>marks := butlast (marks s)\<rparr>
        in if length (vstack s) < start_ix then Inl LengthError
           else bind (ivalues (drop start_ix (vstack s))) (\<lambda>elements.
                  Inr (push_entry (IV (UTuple elements))
                         (s\<lparr>vstack := take start_ix (vstack s)\<rparr>)))))"

text \<open>
  \<^verbatim>\<open>stack_.at(start - 1)\<close>: the index is a \<^verbatim>\<open>size_t\<close>, so a mark of zero asks for the
  largest index.
\<close>

definition stack_at_before :: "nat \<Rightarrow> Unpickler \<Rightarrow> error + StackEntry" where
  "stack_at_before start_ix s =
    (if start_ix = 0 \<or> \<not> start_ix - 1 < length (vstack s) then Inl OutOfRange
     else Inr (vstack s ! (start_ix - 1)))"

text \<open>\<^verbatim>\<open>Unpickler::readList\<close>, for \<^verbatim>\<open>case OpCode::APPENDS\<close>.\<close>

definition readList :: "Unpickler \<Rightarrow> error + Unpickler" where
  "readList s =
    (if marks s = [] then Inl UB_back_of_empty
     else
       (let start_ix = last (marks s);
            s = s\<lparr>marks := butlast (marks s)\<rparr>
        in bind (stack_at_before start_ix s) (\<lambda>list_ivalue.
           bind (ivalue list_ivalue) (\<lambda>v.
             if isIntList v then
               bind (toIntListRef s v) (\<lambda>ns.
               bind (toInts (drop start_ix (vstack s))) (\<lambda>items.
                 Inr (s\<lparr>heap := (heap s)[(case v of UIntList r \<Rightarrow> r | _ \<Rightarrow> 0)
                                          := HIntList (ns @ items)],
                        vstack := take start_ix (vstack s)\<rparr>)))
             else
               bind (toGenericListRef s v) (\<lambda>xs.
               bind (ivalues (drop start_ix (vstack s))) (\<lambda>items.
                 Inr (s\<lparr>heap := (heap s)[(case v of UGenericList r \<Rightarrow> r | _ \<Rightarrow> 0)
                                          := HGenericList (xs @ items)],
                        vstack := take start_ix (vstack s)\<rparr>)))))))"

text \<open>
  The loop of \<^verbatim>\<open>case OpCode::SETITEMS\<close> over the entries above the mark, two at a
  time. With an odd number of entries the last turn reads \<^verbatim>\<open>stack_[i + 1]\<close> past the end
  of the vector.
\<close>

fun setitems :: "StackEntry list \<Rightarrow> (UValue \<times> UValue) list \<Rightarrow> error + (UValue \<times> UValue) list" where
  "setitems [] d = Inr d"
| "setitems [k] d = Inl UB_index_past_end"
| "setitems (k # v # es) d =
    bind (ivalue v) (\<lambda>vv. bind (ivalue k) (\<lambda>kk. setitems es (dict_insert kk vv d)))"

definition case_SETITEMS :: "Unpickler \<Rightarrow> error + Unpickler" where
  "case_SETITEMS s =
    (if marks s = [] then Inl UB_back_of_empty
     else
       (let start_ix = last (marks s);
            s = s\<lparr>marks := butlast (marks s)\<rparr>
        in bind (stack_at_before start_ix s) (\<lambda>e.
           bind (ivalue e) (\<lambda>v.
           bind (toGenericDict s v) (\<lambda>(r, d).
           bind (setitems (drop start_ix (vstack s)) d) (\<lambda>d'.
             Inr (s\<lparr>heap := (heap s)[r := HGenericDict d'],
                    vstack := take start_ix (vstack s)\<rparr>)))))))"

text \<open>\<^verbatim>\<open>case OpCode::BINGET\<close> and \<^verbatim>\<open>case OpCode::LONG_BINGET\<close>.\<close>

definition memo_at :: "nat \<Rightarrow> Unpickler \<Rightarrow> error + Unpickler" where
  "memo_at i s =
    (if i < length (memo_table s) then Inr (push_entry (memo_table s ! i) s)
     else Inl OutOfRange)"

definition case_BINGET :: "Unpickler \<Rightarrow> error + Unpickler" where
  "case_BINGET s = bind (read_uint8 s) (\<lambda>(i, s). memo_at (unat i) s)"

definition case_LONG_BINGET :: "Unpickler \<Rightarrow> error + Unpickler" where
  "case_LONG_BINGET s = bind (read_uint32 s) (\<lambda>(i, s). memo_at (unat i) s)"

text \<open>
  \<^verbatim>\<open>case OpCode::GLOBAL\<close>: the module name is read, then the class name; for the module
  \<^verbatim>\<open>__main__\<close> the class is pushed as the integer of its enumerator.
\<close>

definition case_GLOBAL :: "Host \<Rightarrow> Unpickler \<Rightarrow> error + Unpickler" where
  "case_GLOBAL tag s =
    bind (readString s) (\<lambda>(module_name, s).
    bind (readString s) (\<lambda>(class_name, s).
    bind (getClass class_name) (\<lambda>c.
      if module_name = bytes_of ''__main__''
      then Inr (push_entry (IV (UInt (ucast (enumerator tag c)))) s)
      else Inr (push_entry (PC c) s))))"

definition pop_back :: "Unpickler \<Rightarrow> error + Unpickler" where
  "pop_back s =
    (if vstack s = [] then Inl UB_pop_back_of_empty
     else Inr (s\<lparr>vstack := butlast (vstack s)\<rparr>))"

definition stack_back :: "Unpickler \<Rightarrow> error + StackEntry" where
  "stack_back s = (if vstack s = [] then Inl UB_back_of_empty else Inr (last (vstack s)))"

definition case_NEWOBJ :: "Unpickler \<Rightarrow> error + Unpickler" where
  "case_NEWOBJ s = pop_back s"

text \<open>\<^verbatim>\<open>tensor_table_->at(i)\<close> for an \<^verbatim>\<open>int64_t\<close> \<open>i\<close>, converted to \<^verbatim>\<open>size_t\<close>.\<close>

definition tensor_at :: "64 word \<Rightarrow> Unpickler \<Rightarrow> error + Tensor" where
  "tensor_at i s =
    (case tensors s of
       None \<Rightarrow> Inl UB_null_tensor_table
     | Some tt \<Rightarrow> if unat i < length tt then Inr (tt ! unat i) else Inl OutOfRange)"

definition case_BUILD :: "Host \<Rightarrow> Unpickler \<Rightarrow> error + Unpickler" where
  "case_BUILD tag s =
    bind (stack_back s) (\<lambda>e.
    bind (ivalue e) (\<lambda>setitem_data.
    bind (pop_back s) (\<lambda>s.
    bind (stack_back s) (\<lambda>e.
    bind (ivalue e) (\<lambda>v.
    bind (toInt v) (\<lambda>n.
    bind (pop_back s) (\<lambda>s.
      (let class_name = (ucast n :: byte)
       in if class_name = enumerator tag TENSOR then
            bind (toInt setitem_data) (\<lambda>i.
            bind (tensor_at i s) (\<lambda>t. Inr (push_entry (IV (UTensor t)) s)))
          else if class_name = enumerator tag INTLIST then Inr (push_entry (IV setitem_data) s)
          else Inl UnknownPicklerClassId))))))))"

definition elements_at_0 :: "UValue list \<Rightarrow> error + UValue" where
  "elements_at_0 xs = (case xs of [] \<Rightarrow> Inl OutOfRange | x # _ \<Rightarrow> Inr x)"

definition case_REDUCE :: "Unpickler \<Rightarrow> error + Unpickler" where
  "case_REDUCE s =
    bind (stack_back s) (\<lambda>e.
    bind (ivalue e) (\<lambda>v.
    bind (toTuple v) (\<lambda>data.
    bind (pop_back s) (\<lambda>s.
    bind (stack_back s) (\<lambda>e.
    bind (pickler_class e) (\<lambda>class_name.
    bind (pop_back s) (\<lambda>s.
      (case class_name of
         TENSOR \<Rightarrow>
           bind (elements_at_0 data) (\<lambda>x.
           bind (toInt x) (\<lambda>i.
           bind (tensor_at i s) (\<lambda>t. Inr (push_entry (IV (UTensor t)) s))))
       | INTLIST \<Rightarrow>
           bind (elements_at_0 data) (\<lambda>x.
           bind (toIntListRef s x) (\<lambda>ns. Inr (push_new_IntList ns s)))))))))))"

text \<open>
  \<^verbatim>\<open>Unpickler::readInstruction\<close>: the opcode is read and the switch dispatches on it. The
  opcodes without a case (\<^verbatim>\<open>NONE\<close>, \<^verbatim>\<open>BINPERSID\<close>, \<^verbatim>\<open>PROTO\<close>) and the bytes that
  are no opcode reach the \<^verbatim>\<open>default\<close> branch.
\<close>

definition readInstruction ::
  "Host \<Rightarrow> Unpickler \<Rightarrow> error + (OpCode \<times> Unpickler)" where
  "readInstruction tag s =
    bind (readOpCode s) (\<lambda>((opc, b), s).
      case opc of
        None \<Rightarrow> Inl (UnknownOpcode b)
      | Some opcode \<Rightarrow>
          bind
            (case opcode of
               EMPTY_LIST \<Rightarrow> case_EMPTY_LIST tag s
             | EMPTY_TUPLE \<Rightarrow> Inr (push_entry (IV (UTuple [])) s)
             | BINPUT \<Rightarrow> case_BINPUT tag s
             | LONG_BINPUT \<Rightarrow> case_LONG_BINPUT tag s
             | MARK \<Rightarrow> case_MARK s
             | NEWTRUE \<Rightarrow> Inr (push_entry (IV (UBool True)) s)
             | NEWFALSE \<Rightarrow> Inr (push_entry (IV (UBool False)) s)
             | BININT1 \<Rightarrow> case_BININT1 s
             | BININT \<Rightarrow> case_BININT s
             | LONG1 \<Rightarrow> case_LONG1 s
             | BINUNICODE \<Rightarrow> case_BINUNICODE s
             | BINFLOAT \<Rightarrow> case_BINFLOAT s
             | TUPLE \<Rightarrow> case_TUPLE s
             | EMPTY_DICT \<Rightarrow> Inr (push_new_GenericDict s)
             | APPENDS \<Rightarrow> readList s
             | SETITEMS \<Rightarrow> case_SETITEMS s
             | BINGET \<Rightarrow> case_BINGET s
             | LONG_BINGET \<Rightarrow> case_LONG_BINGET s
             | STOP \<Rightarrow> Inr s
             | GLOBAL \<Rightarrow> case_GLOBAL tag s
             | NEWOBJ \<Rightarrow> case_NEWOBJ s
             | BUILD \<Rightarrow> case_BUILD tag s
             | REDUCE \<Rightarrow> case_REDUCE s
             | _ \<Rightarrow> Inl (UnknownOpcode b))
            (\<lambda>s. Inr (opcode, s)))"

lemma bind_Inl [simp]: "bind (Inl e) f = Inl e"
  by (simp add: bind_def)

lemma bind_Inr [simp]: "bind (Inr x) f = f x"
  by (simp add: bind_def)

lemma bind_eq_Inr: "bind m f = Inr y \<longleftrightarrow> (\<exists>x. m = Inr x \<and> f x = Inr y)"
  by (cases m) simp_all

text \<open>Each step leaves the input alone and never moves the cursor back.\<close>

definition keeps :: "Unpickler \<Rightarrow> Unpickler \<Rightarrow> bool" where
  "keeps s s' \<longleftrightarrow> bytes s' = bytes s \<and> pos s \<le> pos s'"

lemma keeps_refl [simp]: "keeps s s"
  by (simp add: keeps_def)

lemma keeps_trans: "keeps s s1 \<Longrightarrow> keeps s1 s2 \<Longrightarrow> keeps s s2"
  by (simp add: keeps_def)

lemma keeps_fields [simp]:
  "keeps s (s'\<lparr>vstack := a\<rparr>) = keeps s s'"
  "keeps s (s'\<lparr>marks := b\<rparr>) = keeps s s'"
  "keeps s (s'\<lparr>memo_table := c\<rparr>) = keeps s s'"
  "keeps s (s'\<lparr>heap := d\<rparr>) = keeps s s'"
  "keeps s (s'\<lparr>last_opcode := e\<rparr>) = keeps s s'"
  "keeps s (push_entry x s') = keeps s s'"
  "keeps s (push_new_IntList ns s') = keeps s s'"
  "keeps s (push_new_GenericList xs s') = keeps s s'"
  "keeps s (push_new_GenericDict s') = keeps s s'"
  by (simp_all add: keeps_def push_entry_def push_new_IntList_def push_new_GenericList_def
      push_new_GenericDict_def alloc_def)

lemma read_bytes_keeps: "read_bytes n s = Inr (bs, s') \<Longrightarrow> bytes s' = bytes s \<and> pos s' = pos s + n"
  by (auto simp: read_bytes_def split: if_splits)

lemma read_uint8_keeps: "read_uint8 s = Inr (b, s') \<Longrightarrow> bytes s' = bytes s \<and> pos s' = pos s + 1"
  by (auto simp: read_uint8_def bind_eq_Inr dest: read_bytes_keeps)

lemma read_int8_keeps: "read_int8 s = Inr (b, s') \<Longrightarrow> keeps s s'"
  by (auto simp: read_int8_def bind_eq_Inr keeps_def dest: read_bytes_keeps)

lemma read_int32_keeps: "read_int32 s = Inr (b, s') \<Longrightarrow> keeps s s'"
  by (auto simp: read_int32_def bind_eq_Inr keeps_def dest: read_bytes_keeps)

lemma read_uint32_keeps: "read_uint32 s = Inr (b, s') \<Longrightarrow> keeps s s'"
  by (auto simp: read_uint32_def bind_eq_Inr keeps_def dest: read_bytes_keeps)

lemma read_int64_keeps: "read_int64 s = Inr (b, s') \<Longrightarrow> keeps s s'"
  by (auto simp: read_int64_def bind_eq_Inr keeps_def dest: read_bytes_keeps)

lemma readFloat_keeps: "readFloat s = Inr (d, s') \<Longrightarrow> keeps s s'"
  by (auto simp: readFloat_def keeps_def split: if_splits)

lemma readString_keeps: "readString s = Inr (str, s') \<Longrightarrow> keeps s s'"
  by (auto simp: readString_def bind_eq_Inr keeps_def)

lemma readOpCode_advances:
  "readOpCode s = Inr (x, s') \<Longrightarrow> bytes s' = bytes s \<and> pos s' = pos s + 1"
  by (auto simp: readOpCode_def bind_eq_Inr dest: read_uint8_keeps)

lemma case_EMPTY_LIST_keeps: "case_EMPTY_LIST tag s = Inr s' \<Longrightarrow> keeps s s'"
  by (auto simp: case_EMPTY_LIST_def bind_eq_Inr split: if_splits)

lemma memo_push_back_keeps: "memo_push_back s = Inr s' \<Longrightarrow> keeps s s'"
  by (auto simp: memo_push_back_def split: if_splits)

lemma memo_reserve_keeps: "memo_reserve tag k s = Inr s' \<Longrightarrow> s' = s"
  by (auto simp: memo_reserve_def split: if_splits)

lemma case_BINPUT_keeps: "case_BINPUT tag s = Inr s' \<Longrightarrow> keeps s s'"
  by (auto simp: case_BINPUT_def bind_eq_Inr keeps_def
      dest!: read_uint8_keeps memo_reserve_keeps memo_push_back_keeps)

lemma case_LONG_BINPUT_keeps: "case_LONG_BINPUT tag s = Inr s' \<Longrightarrow> keeps s s'"
  by (auto simp: case_LONG_BINPUT_def bind_eq_Inr
      dest!: read_uint32_keeps memo_reserve_keeps memo_push_back_keeps intro: keeps_trans)

lemma case_MARK_keeps: "case_MARK s = Inr s' \<Longrightarrow> keeps s s'"
  by (auto simp: case_MARK_def)

lemma case_BININT1_keeps: "case_BININT1 s = Inr s' \<Longrightarrow> keeps s s'"
  by (auto simp: case_BININT1_def bind_eq_Inr dest!: read_int8_keeps)

lemma case_BININT_keeps: "case_BININT s = Inr s' \<Longrightarrow> keeps s s'"
  by (auto simp: case_BININT_def bind_eq_Inr dest!: read_int32_keeps)

lemma case_LONG1_keeps: "case_LONG1 s = Inr s' \<Longrightarrow> keeps s s'"
  by (auto simp: case_LONG1_def bind_eq_Inr keeps_def push_entry_def split: if_splits
      dest!: read_uint8_keeps read_int64_keeps)

lemma case_BINUNICODE_keeps: "case_BINUNICODE s = Inr s' \<Longrightarrow> keeps s s'"
  by (auto simp: case_BINUNICODE_def bind_eq_Inr keeps_def push_entry_def split: if_splits
      dest!: read_uint32_keeps)

lemma case_BINFLOAT_keeps: "case_BINFLOAT s = Inr s' \<Longrightarrow> keeps s s'"
  by (auto simp: case_BINFLOAT_def bind_eq_Inr dest!: readFloat_keeps)

lemma case_TUPLE_keeps: "case_TUPLE s = Inr s' \<Longrightarrow> keeps s s'"
  by (auto simp: case_TUPLE_def bind_eq_Inr Let_def split: if_splits)

lemma readList_keeps: "readList s = Inr s' \<Longrightarrow> keeps s s'"
  by (auto simp: readList_def bind_eq_Inr Let_def keeps_def split: if_splits)

lemma case_SETITEMS_keeps: "case_SETITEMS s = Inr s' \<Longrightarrow> keeps s s'"
  by (auto simp: case_SETITEMS_def bind_eq_Inr Let_def keeps_def split: if_splits)

lemma memo_at_keeps: "memo_at i s = Inr s' \<Longrightarrow> keeps s s'"
  by (auto simp: memo_at_def split: if_splits)

lemma case_BINGET_keeps: "case_BINGET s = Inr s' \<Longrightarrow> keeps s s'"
  by (auto simp: case_BINGET_def bind_eq_Inr keeps_def dest!: read_uint8_keeps memo_at_keeps)

lemma case_LONG_BINGET_keeps: "case_LONG_BINGET s = Inr s' \<Longrightarrow> keeps s s'"
  by (auto simp: case_LONG_BINGET_def bind_eq_Inr dest!: read_uint32_keeps memo_at_keeps
      intro: keeps_trans)

lemma case_GLOBAL_keeps: "case_GLOBAL tag s = Inr s' \<Longrightarrow> keeps s s'"
  by (auto simp: case_GLOBAL_def bind_eq_Inr split: if_splits dest!: readString_keeps
      intro: keeps_trans)

lemma pop_back_keeps: "pop_back s = Inr s' \<Longrightarrow> keeps s s'"
  by (auto simp: pop_back_def split: if_splits)

lemma case_BUILD_keeps: "case_BUILD tag s = Inr s' \<Longrightarrow> keeps s s'"
  by (auto simp: case_BUILD_def bind_eq_Inr Let_def split: if_splits dest!: pop_back_keeps
      intro: keeps_trans)

lemma class_cases: "c \<noteq> TENSOR \<Longrightarrow> c \<noteq> INTLIST \<Longrightarrow> P"
  by (cases c) simp_all

lemma case_REDUCE_keeps: "case_REDUCE s = Inr s' \<Longrightarrow> keeps s s'"
  by (auto simp: case_REDUCE_def bind_eq_Inr split: PicklerClass.split_asm dest!: pop_back_keeps
      intro: keeps_trans elim: class_cases)

lemmas case_keeps = case_EMPTY_LIST_keeps case_BINPUT_keeps case_LONG_BINPUT_keeps
  case_MARK_keeps case_BININT1_keeps case_BININT_keeps case_LONG1_keeps case_BINUNICODE_keeps
  case_BINFLOAT_keeps case_TUPLE_keeps readList_keeps case_SETITEMS_keeps case_BINGET_keeps
  case_LONG_BINGET_keeps case_GLOBAL_keeps case_BUILD_keeps case_REDUCE_keeps pop_back_keeps

lemma readInstruction_advances:
  assumes "readInstruction tag s = Inr (opc, s')"
  shows "bytes s' = bytes s \<and> pos s < pos s'"
proof -
  from assms obtain o1 b s1 s2 where
    1: "readOpCode s = Inr ((Some o1, b), s1)" and
    2: "(case o1 of
               EMPTY_LIST \<Rightarrow> case_EMPTY_LIST tag s1
             | EMPTY_TUPLE \<Rightarrow> Inr (push_entry (IV (UTuple [])) s1)
             | BINPUT \<Rightarrow> case_BINPUT tag s1
             | LONG_BINPUT \<Rightarrow> case_LONG_BINPUT tag s1
             | MARK \<Rightarrow> case_MARK s1
             | NEWTRUE \<Rightarrow> Inr (push_entry (IV (UBool True)) s1)
             | NEWFALSE \<Rightarrow> Inr (push_entry (IV (UBool False)) s1)
             | BININT1 \<Rightarrow> case_BININT1 s1
             | BININT \<Rightarrow> case_BININT s1
             | LONG1 \<Rightarrow> case_LONG1 s1
             | BINUNICODE \<Rightarrow> case_BINUNICODE s1
             | BINFLOAT \<Rightarrow> case_BINFLOAT s1
             | TUPLE \<Rightarrow> case_TUPLE s1
             | EMPTY_DICT \<Rightarrow> Inr (push_new_GenericDict s1)
             | APPENDS \<Rightarrow> readList s1
             | SETITEMS \<Rightarrow> case_SETITEMS s1
             | BINGET \<Rightarrow> case_BINGET s1
             | LONG_BINGET \<Rightarrow> case_LONG_BINGET s1
             | STOP \<Rightarrow> Inr s1
             | GLOBAL \<Rightarrow> case_GLOBAL tag s1
             | NEWOBJ \<Rightarrow> case_NEWOBJ s1
             | BUILD \<Rightarrow> case_BUILD tag s1
             | REDUCE \<Rightarrow> case_REDUCE s1
             | _ \<Rightarrow> Inl (UnknownOpcode b)) = Inr s2" and 3: "s' = s2"
    by (auto simp: readInstruction_def bind_eq_Inr split: option.splits)
  from 2 have "keeps s1 s2"
    by (cases o1) (auto simp: case_NEWOBJ_def dest: case_keeps)
  with readOpCode_advances [OF 1] 3 show ?thesis
    by (simp add: keeps_def)
qed

text \<open>
  The loop of \<^verbatim>\<open>Unpickler::run\<close>: it goes on while the cursor is before the end, and
  returns at \<^verbatim>\<open>STOP\<close>. Each instruction moves the cursor forward, so the loop ends.
\<close>

function run_loop :: "Host \<Rightarrow> Unpickler \<Rightarrow> error + Unpickler" where
  "run_loop tag s =
    (if pos s < length (bytes s) then
       (case readInstruction tag s of
          Inl e \<Rightarrow> Inl e
        | Inr (opcode, s') \<Rightarrow>
            if opcode = STOP then Inr s'
            else run_loop tag (s'\<lparr>last_opcode := opcode\<rparr>))
     else Inl MissingSTOP)"
  by pat_completeness auto
termination
proof (relation "measure (\<lambda>(tag, s). length (bytes s) - pos s)", goal_cases)
  case 1
  show ?case by simp
next
  case (2 tag s x2 opc s')
  then show ?case
    using readInstruction_advances [of tag s opc s'] by (auto intro: diff_less_mono2)
qed


declare run_loop.simps [simp del]

definition run :: "Host \<Rightarrow> Unpickler \<Rightarrow> error + Unpickler" where
  "run tag s =
    bind (readOpCode s) (\<lambda>((opc, b), s).
      if opc \<noteq> Some PROTO then Inl ExpectedPROTO
      else bind (read_uint8 s) (\<lambda>(protocol, s).
             if protocol \<noteq> 2 then Inl (UnsupportedProtocol protocol)
             else run_loop tag s))"

text \<open>
  \<^verbatim>\<open>Unpickler::parse_ivalue_list\<close>. The result is returned with the final state, whose
  store gives the references in the values their meaning.
\<close>

definition parse_ivalue_list ::
  "Host \<Rightarrow> Unpickler \<Rightarrow> error + (UValue list \<times> Unpickler)" where
  "parse_ivalue_list tag s =
    bind (run tag s) (\<lambda>s.
      if length (vstack s) \<noteq> 1 then Inl (ExpectedOneElement (length (vstack s)))
      else bind (ivalue (vstack s ! 0)) (\<lambda>v.
        if isGenericList v then bind (toGenericListRef s v) (\<lambda>xs. Inr (xs, s))
        else bind (toTuple v) (\<lambda>xs. Inr (xs, s))))"

section \<open>Integer width\<close>

lemma sle_iff: "(a :: 64 word) \<le>s b \<longleftrightarrow> sint a \<le> sint b"
  by (simp add: word_sle_eq)

lemma sint_ucast_int8:
  fixes n :: "64 word"
  assumes "- 128 \<le> sint n" "sint n \<le> 127"
  shows "sint (ucast n :: 8 word) = sint n"
proof -
  have "sint (ucast n :: 8 word) = signed_take_bit 7 (sint n)"
    by (simp add: sint_uint signed_take_bit_take_bit unsigned_ucast_eq take_bit_signed_take_bit)
  also have "\<dots> = sint n"
    using assms by (simp add: signed_take_bit_int_eq_self)
  finally show ?thesis .
qed

lemma sint_ucast_int32:
  fixes n :: "64 word"
  assumes "- 2147483648 \<le> sint n" "sint n \<le> 2147483647"
  shows "sint (ucast n :: 32 word) = sint n"
proof -
  have "sint (ucast n :: 32 word) = signed_take_bit 31 (sint n)"
    by (simp add: sint_uint signed_take_bit_take_bit unsigned_ucast_eq take_bit_signed_take_bit)
  also have "\<dots> = sint n"
    using assms by (simp add: signed_take_bit_int_eq_self)
  finally show ?thesis .
qed

lemma unat_byte_of: "unat (ucast (w :: 'a::len word) :: 8 word) = unat w mod 256"
  by (simp add: take_bit_eq_mod unsigned_ucast_eq)

lemma unat_drop: "unat (drop_bit k (w :: 'a::len word)) = unat w div 2 ^ k"
  unfolding unat_drop_bit_eq by (rule drop_bit_eq_div)

lemma split256: "(x::nat) = x mod 256 + 256 * (x div 256)"
  by simp

lemma split256_div: "(x::nat) div k = x div k mod 256 + 256 * (x div (k * 256))"
  by (simp add: div_mult2_eq)

lemma le3: "a = m0 + 256 * a1 \<Longrightarrow> a1 = m1 + 256 * a2 \<Longrightarrow> a2 = m2 + 256 * a3 \<Longrightarrow>
  m0 + (256 * m1 + (65536 * m2 + 16777216 * a3)) = (a::nat)"
  by simp

lemma le_value_word32: "le_value (word32_bytes w) = unat w"
proof -
  have b: "unat w < 4294967296" using unsigned_less [of w, where 'a = nat] by simp
  have 1: "unat w div 256 = unat w div 256 mod 256 + 256 * (unat w div 65536)"
    using split256_div [of "unat w" 256] by simp
  have 2: "unat w div 65536 = unat w div 65536 mod 256 + 256 * (unat w div 16777216)"
    using split256_div [of "unat w" 65536] by simp
  have "unat w mod 256 + (256 * (unat w div 256 mod 256) +
      (65536 * (unat w div 65536 mod 256) + 16777216 * (unat w div 16777216))) = unat w"
    by (rule le3 [OF split256 1 2])
  then show ?thesis
    using b by (simp add: word32_bytes_def unat_byte_of unat_drop)
qed

lemma le7: "a = m0 + 256 * a1 \<Longrightarrow> a1 = m1 + 256 * a2 \<Longrightarrow> a2 = m2 + 256 * a3 \<Longrightarrow>
  a3 = m3 + 256 * a4 \<Longrightarrow> a4 = m4 + 256 * a5 \<Longrightarrow> a5 = m5 + 256 * a6 \<Longrightarrow>
  a6 = m6 + 256 * a7 \<Longrightarrow>
  m0 + (256 * m1 + (65536 * m2 + (16777216 * m3 + (4294967296 * m4 +
    (1099511627776 * m5 + (281474976710656 * m6 + 72057594037927936 * a7)))))) = (a::nat)"
  by simp

lemma le_value_word64: "le_value (word64_bytes w) = unat w"
proof -
  have b: "unat w < 18446744073709551616" using unsigned_less [of w, where 'a = nat] by simp
  have 1: "unat w div 256 = unat w div 256 mod 256 + 256 * (unat w div 65536)"
    using split256_div [of "unat w" 256] by simp
  have 2: "unat w div 65536 = unat w div 65536 mod 256 + 256 * (unat w div 16777216)"
    using split256_div [of "unat w" 65536] by simp
  have 3: "unat w div 16777216 = unat w div 16777216 mod 256 + 256 * (unat w div 4294967296)"
    using split256_div [of "unat w" 16777216] by simp
  have 4: "unat w div 4294967296 =
      unat w div 4294967296 mod 256 + 256 * (unat w div 1099511627776)"
    using split256_div [of "unat w" 4294967296] by simp
  have 5: "unat w div 1099511627776 =
      unat w div 1099511627776 mod 256 + 256 * (unat w div 281474976710656)"
    using split256_div [of "unat w" 1099511627776] by simp
  have 6: "unat w div 281474976710656 =
      unat w div 281474976710656 mod 256 + 256 * (unat w div 72057594037927936)"
    using split256_div [of "unat w" 281474976710656] by simp
  note r = le7 [OF split256 1 2 3 4 5 6]
  show ?thesis
    using b r by (simp add: word64_bytes_def unat_byte_of unat_drop)
qed

lemma pushInt_stack:
  "stack (pushInt n p) = stack p @
     (if - 128 \<le> sint n \<and> sint n \<le> 127 then [opcode_byte BININT1, ucast n]
      else if - 2147483648 \<le> sint n \<and> sint n \<le> 2147483647
           then opcode_byte BININT # word32_bytes (ucast n)
      else opcode_byte LONG1 # 8 # word64_bytes n)"
  by (simp add: pushInt_def sle_iff push_int8_def push_int32_def push_int64_def push_uint8_def
      push_OpCode_def push_bytes_def)

text \<open>
  Claim C7. For every signed 64-bit integer \<open>n\<close>, \<^verbatim>\<open>pushInt\<close> appends to the buffer:
  \<^verbatim>\<open>BININT1\<close> and one byte that read as a signed byte is \<open>n\<close>, exactly when
  \<open>-128 \<le> n \<le> 127\<close>; \<^verbatim>\<open>BININT\<close> and the four little-endian bytes of the 32-bit
  word that read as a signed word is \<open>n\<close>, exactly when \<open>n\<close> is in \<open>[-2^31, 2^31)\<close> and
  not in \<open>[-128, 127]\<close>; otherwise \<^verbatim>\<open>LONG1\<close>, the length 8 and the eight little-endian
  bytes of \<open>n\<close>. The first appended byte is the opcode, and it tells the three ranges
  apart.
\<close>

theorem pushInt_opcode_by_range:
  fixes n :: "64 word"
  shows
    "stack (pushInt n p) = stack p @
       (if - 128 \<le> sint n \<and> sint n \<le> 127 then [opcode_byte BININT1, ucast n]
        else if - (2 ^ 31) \<le> sint n \<and> sint n < 2 ^ 31
             then opcode_byte BININT # word32_bytes (ucast n)
        else opcode_byte LONG1 # 8 # word64_bytes n)
     \<and> (- 128 \<le> sint n \<and> sint n \<le> 127 \<longrightarrow> sint (ucast n :: 8 word) = sint n)
     \<and> (- (2 ^ 31) \<le> sint n \<and> sint n < 2 ^ 31 \<longrightarrow>
          sint (ucast n :: 32 word) = sint n
          \<and> le_value (word32_bytes (ucast n)) = unat (ucast n :: 32 word))
     \<and> le_value (word64_bytes n) = unat n
     \<and> (stack (pushInt n p) ! length (stack p) = opcode_byte BININT1
          \<longleftrightarrow> - 128 \<le> sint n \<and> sint n \<le> 127)
     \<and> (stack (pushInt n p) ! length (stack p) = opcode_byte BININT
          \<longleftrightarrow> - (2 ^ 31) \<le> sint n \<and> sint n < 2 ^ 31
              \<and> \<not> (- 128 \<le> sint n \<and> sint n \<le> 127))
     \<and> (stack (pushInt n p) ! length (stack p) = opcode_byte LONG1
          \<longleftrightarrow> sint n < - (2 ^ 31) \<or> 2 ^ 31 \<le> sint n)"
proof -
  have r: "(- (2 ^ 31) \<le> sint n \<and> sint n < 2 ^ 31)
      = (- 2147483648 \<le> sint n \<and> sint n \<le> 2147483647)"
    by auto
  have s: "stack (pushInt n p) = stack p @
       (if - 128 \<le> sint n \<and> sint n \<le> 127 then [opcode_byte BININT1, ucast n]
        else if - (2 ^ 31) \<le> sint n \<and> sint n < 2 ^ 31
             then opcode_byte BININT # word32_bytes (ucast n)
        else opcode_byte LONG1 # 8 # word64_bytes n)"
    unfolding r by (rule pushInt_stack)
  have a: "- 128 \<le> sint n \<and> sint n \<le> 127 \<longrightarrow> sint (ucast n :: 8 word) = sint n"
    using sint_ucast_int8 [of n] by simp
  have b: "- (2 ^ 31) \<le> sint n \<and> sint n < 2 ^ 31 \<longrightarrow>
          sint (ucast n :: 32 word) = sint n
          \<and> le_value (word32_bytes (ucast n)) = unat (ucast n :: 32 word)"
    using sint_ucast_int32 [of n] by (simp add: le_value_word32)
  have c: "le_value (word64_bytes n) = unat n"
    by (rule le_value_word64)
  have d: "(stack (pushInt n p) ! length (stack p) = opcode_byte BININT1
          \<longleftrightarrow> - 128 \<le> sint n \<and> sint n \<le> 127)"
    unfolding s by simp
  have e: "(stack (pushInt n p) ! length (stack p) = opcode_byte BININT
          \<longleftrightarrow> - (2 ^ 31) \<le> sint n \<and> sint n < 2 ^ 31
              \<and> \<not> (- 128 \<le> sint n \<and> sint n \<le> 127))"
    unfolding s by simp
  have f: "(stack (pushInt n p) ! length (stack p) = opcode_byte LONG1
          \<longleftrightarrow> sint n < - (2 ^ 31) \<or> 2 ^ 31 \<le> sint n)"
    unfolding s by auto
  from s a b c d e f show ?thesis by blast
qed

text \<open>The four boundary values \<open>-128\<close>, \<open>127\<close>, \<open>-2^31\<close> and \<open>2^31 - 1\<close>, and their
  neighbours outside the range.\<close>

theorem pushInt_opcode_by_range_witness:
  "stack (pushInt (- 128) (new_Pickler None)) = [0x4B, 0x80]
   \<and> stack (pushInt 127 (new_Pickler None)) = [0x4B, 0x7F]
   \<and> stack (pushInt (- 129) (new_Pickler None)) = [0x4A, 0x7F, 0xFF, 0xFF, 0xFF]
   \<and> stack (pushInt 128 (new_Pickler None)) = [0x4A, 0x80, 0, 0, 0]
   \<and> stack (pushInt (- 2147483648) (new_Pickler None)) = [0x4A, 0, 0, 0, 0x80]
   \<and> stack (pushInt 2147483647 (new_Pickler None)) = [0x4A, 0xFF, 0xFF, 0xFF, 0x7F]
   \<and> stack (pushInt 2147483648 (new_Pickler None)) = [0x8A, 8, 0, 0, 0, 0x80, 0, 0, 0, 0]
   \<and> stack (pushInt (- 2147483649) (new_Pickler None))
       = [0x8A, 8, 0xFF, 0xFF, 0xFF, 0x7F, 0xFF, 0xFF, 0xFF, 0xFF]"
  using pushInt_opcode_by_range [of "- 128" "new_Pickler None"]
    pushInt_opcode_by_range [of 127 "new_Pickler None"]
    pushInt_opcode_by_range [of "- 129" "new_Pickler None"]
    pushInt_opcode_by_range [of 128 "new_Pickler None"]
    pushInt_opcode_by_range [of "- 2147483648" "new_Pickler None"]
    pushInt_opcode_by_range [of 2147483647 "new_Pickler None"]
    pushInt_opcode_by_range [of 2147483648 "new_Pickler None"]
    pushInt_opcode_by_range [of "- 2147483649" "new_Pickler None"]
  by (simp add: new_Pickler_def word32_bytes_def word64_bytes_def)

section \<open>Sessions at concrete inputs\<close>

text \<open>
  Wherever a function is run on a concrete input below, the values of the enumerators are
  \<open>TENSOR = 0\<close> and \<open>INTLIST = 1\<close>, and the host grants the memo table a reserve of up to
  \<open>2^32\<close> entries; the general statements hold for every host.
\<close>

definition tag_values :: Host where
  "tag_values =
    \<lparr>enumerator = (\<lambda>c. case c of TENSOR \<Rightarrow> 0 | INTLIST \<Rightarrow> 1),
     reserve_granted = (\<lambda>n. n \<le> 4294967296)\<rparr>"

text \<open>
  One pickling session for one value: \<^verbatim>\<open>start\<close>, \<^verbatim>\<open>startTuple\<close>, \<^verbatim>\<open>addIValue\<close>,
  \<^verbatim>\<open>endTuple\<close>, \<^verbatim>\<open>finish\<close>, on a fresh pickler.
\<close>

definition pickle_one :: "Tensor list option \<Rightarrow> IValue \<Rightarrow> Pickler" where
  "pickle_one tt v = finish (endTuple (addIValue v (startTuple (start (new_Pickler tt)))))"

lemmas dec_defs = parse_ivalue_list_def run_def readInstruction_def readOpCode_def read_uint8_def
  read_int8_def read_int32_def read_uint32_def read_int64_def read_bytes_def new_Unpickler_def
  opcode_of_byte_def case_EMPTY_LIST_def case_BINPUT_def case_LONG_BINPUT_def case_MARK_def
  case_BININT1_def case_BININT_def case_LONG1_def case_BINUNICODE_def case_BINFLOAT_def
  case_TUPLE_def readList_def case_SETITEMS_def case_BINGET_def case_LONG_BINGET_def
  case_GLOBAL_def case_NEWOBJ_def case_BUILD_def case_REDUCE_def memo_reserve_def
  memo_push_back_def memo_at_def
  push_entry_def push_new_IntList_def push_new_GenericList_def push_new_GenericDict_def alloc_def
  ivalue_def pickler_class_def pickler_class_opt_def toInt_def toTuple_def toIntListRef_def
  toGenericListRef_def toGenericDict_def heap_at_def isIntList_def isGenericList_def
  stack_at_before_def pop_back_def stack_back_def tensor_at_def elements_at_0_def readFloat_def
  readString_def getClass_def bytes_of_def byte_of_char_def is_valid_python_id_char_def
  bytes_word32_def bytes_word64_def tag_values_def

lemmas enc_defs = pickle_one_def finish_def endTuple_def startTuple_def start_def new_Pickler_def
  addIValue.simps pushTensor.simps pushLiteralTensor.simps pushTensorReference.simps
  pushIntList.simps pushDict.simps pushList.simps pushTuple.simps pushInt_def pushBinGet_def
  pushNextBinPut_def pushMemoization_def pushMemoization_ptr_def pushMemoizedString_def
  pushGlobal_def pushClass_def pushDouble_def pushString_def push_OpCode_def push_uint8_def
  push_int8_def push_int32_def push_uint32_def push_int64_def push_bytes_def string_bytes_def
  getModuleName_def bytes_of_def byte_of_char_def word32_bytes_def word64_bytes_def
  PROTOCOL_VERSION_def Let_def word_sle_eq

section \<open>Round trip\<close>

text \<open>
  Claim C1 says that every value of the listed variants, \<open>None\<close> among them, comes back
  from decoding the bytes of a one-value session. The pickler writes \<open>None\<close> as the opcode
  \<^verbatim>\<open>NONE\<close>; the switch of \<^verbatim>\<open>Unpickler::readInstruction\<close> has cases for
  \<^verbatim>\<open>NEWTRUE\<close> and \<^verbatim>\<open>NEWFALSE\<close> and none for \<^verbatim>\<open>NONE\<close>. The session for \<open>None\<close>
  produces the six bytes below, and decoding them ends in the \<^verbatim>\<open>default\<close> branch with
  "Unknown opcode" at the byte \<open>0x4E\<close>.
\<close>

theorem None_is_not_decoded:
  "stack (pickle_one None VNone) = [0x80, 2, 0x28, 0x4E, 0x74, 0x2E]
   \<and> parse_ivalue_list tag_values (new_Unpickler (stack (pickle_one None VNone)) None)
       = Inl (UnknownOpcode 0x4E)"
proof -
  have e: "stack (pickle_one None VNone) = [0x80, 2, 0x28, 0x4E, 0x74, 0x2E]"
    by (simp add: enc_defs)
  show ?thesis
    unfolding e by (simp add: dec_defs run_loop.simps)
qed

section \<open>The memo table of the unpickler\<close>

lemma read_uint8_at:
  "pos s < length (bytes s) \<Longrightarrow> read_uint8 s = Inr (bytes s ! pos s, s\<lparr>pos := pos s + 1\<rparr>)"
  by (simp add: read_uint8_def read_bytes_def take_Suc_conv_app_nth hd_drop_conv_nth)

lemma readOpCode_at:
  "pos s < length (bytes s) \<Longrightarrow>
   readOpCode s = Inr ((opcode_of_byte (bytes s ! pos s), bytes s ! pos s), s\<lparr>pos := pos s + 1\<rparr>)"
  by (simp add: readOpCode_def read_uint8_at)

text \<open>
  What \<^verbatim>\<open>BINPUT\<close> does for every memo id \<open>k\<close>, when the host grants the reserve: the
  entry on top of the stack goes to the end of the memo table, at the index that is the
  table's size.
\<close>

lemma case_BINPUT_appends:
  assumes "pos s < length (bytes s)" "vstack s \<noteq> []"
    and "reserve_granted tag (1 + 2 * unat (bytes s ! pos s))"
  shows "case_BINPUT tag s
    = Inr (s\<lparr>pos := pos s + 1, memo_table := memo_table s @ [last (vstack s)]\<rparr>)"
  using assms
  by (simp add: case_BINPUT_def read_uint8_at memo_reserve_def memo_push_back_def)

text \<open>
  \<^verbatim>\<open>LONG_BINPUT\<close> with the memo id \<open>0xFFFFFFFF\<close> asks for a reserve of \<open>2^33 - 1\<close>
  entries; on a host that does not grant it, the session ends with \<^verbatim>\<open>std::bad_alloc\<close>.
\<close>

lemma LONG_BINPUT_reserve_not_granted:
  "run tag_values (new_Unpickler [0x80, 2, 0x88, 0x72, 0xFF, 0xFF, 0xFF, 0xFF, 0x2E] None)
     = Inl BadAlloc"
  by (simp add: dec_defs run_loop.simps)

text \<open>
  Claim C2 says that \<^verbatim>\<open>BINPUT\<close> with memo id \<open>k\<close> binds \<open>k\<close> to the top of the stack for
  every \<open>k\<close>, also when \<open>k\<close> is not the size of the memo table, so that a later
  \<^verbatim>\<open>BINGET\<close> of \<open>k\<close> pushes that element. The code compares \<open>k\<close> with the size of the
  table to reserve room for index \<open>k\<close> and then appends with \<^verbatim>\<open>push_back\<close>. After
  \<^verbatim>\<open>NEWTRUE\<close>, \<^verbatim>\<open>BINPUT 5\<close> on an empty table, \<^verbatim>\<open>BINGET 5\<close> raises the
  \<^verbatim>\<open>out_of_range\<close> of \<^verbatim>\<open>at\<close>, and \<^verbatim>\<open>BINGET 0\<close> pushes the element.
\<close>

theorem BINPUT_binds_the_next_index:
  "run tag_values (new_Unpickler [0x80, 2, 0x88, 0x71, 5, 0x68, 5, 0x2E] None) = Inl OutOfRange
   \<and> run tag_values (new_Unpickler [0x80, 2, 0x88, 0x71, 5, 0x68, 0, 0x2E] None)
       = Inr \<lparr>bytes = [0x80, 2, 0x88, 0x71, 5, 0x68, 0, 0x2E], pos = 8,
              vstack = [IV (UBool True), IV (UBool True)], marks = [],
              memo_table = [IV (UBool True)], tensors = None, last_opcode = BINGET,
              heap = []\<rparr>"
  by (simp add: dec_defs run_loop.simps)

section \<open>Marks\<close>

lemma opcode_of_byte_opcode_byte [simp]: "opcode_of_byte (opcode_byte opc) = Some opc"
  by (cases opc) (simp_all add: opcode_of_byte_def)

lemma readInstruction_STOP:
  "pos s < length (bytes s) \<Longrightarrow> bytes s ! pos s = opcode_byte STOP \<Longrightarrow>
   readInstruction tag s = Inr (STOP, s\<lparr>pos := pos s + 1\<rparr>)"
  by (simp add: readInstruction_def readOpCode_at opcode_of_byte_def)

lemma run_loop_STOP:
  "pos s < length (bytes s) \<Longrightarrow> bytes s ! pos s = opcode_byte STOP \<Longrightarrow>
   run_loop tag s = Inr (s\<lparr>pos := pos s + 1\<rparr>)"
  by (subst run_loop.simps) (simp add: readInstruction_STOP)

lemma case_TUPLE_marks: "case_TUPLE s = Inr s' \<Longrightarrow> marks s \<noteq> [] \<and> marks s' = butlast (marks s)"
  by (auto simp: case_TUPLE_def bind_eq_Inr Let_def push_entry_def split: if_splits)

lemma readList_marks: "readList s = Inr s' \<Longrightarrow> marks s \<noteq> [] \<and> marks s' = butlast (marks s)"
  by (auto simp: readList_def bind_eq_Inr Let_def split: if_splits)

lemma case_SETITEMS_marks:
  "case_SETITEMS s = Inr s' \<Longrightarrow> marks s \<noteq> [] \<and> marks s' = butlast (marks s)"
  by (auto simp: case_SETITEMS_def bind_eq_Inr Let_def split: if_splits)

text \<open>
  Whatever the mark stack holds when \<^verbatim>\<open>run\<close> returns, \<^verbatim>\<open>parse_ivalue_list\<close> gives the
  elements of the one tuple on the stack.
\<close>

lemma parse_ivalue_list_after_run:
  "run tag s0 = Inr s \<Longrightarrow> vstack s = [IV (UTuple xs)] \<Longrightarrow>
   parse_ivalue_list tag s0 = Inr (xs, s)"
  by (simp add: parse_ivalue_list_def ivalue_def isGenericList_def toTuple_def)

text \<open>
  Claim C3 as stated does not hold: the stream \<^verbatim>\<open>PROTO 2 MARK EMPTY_TUPLE STOP\<close> leaves its
  \<^verbatim>\<open>MARK\<close> open, and \<^verbatim>\<open>parse_ivalue_list\<close> accepts it, with the empty sequence as its
  result and the mark still on the mark stack.
\<close>

theorem unclosed_MARK_is_accepted:
  "parse_ivalue_list tag_values (new_Unpickler [0x80, 2, 0x28, 0x29, 0x2E] None)
     = Inr ([], \<lparr>bytes = [0x80, 2, 0x28, 0x29, 0x2E], pos = 5, vstack = [IV (UTuple [])],
                 marks = [0], memo_table = [], tensors = None, last_opcode = EMPTY_TUPLE,
                 heap = []\<rparr>)"
  by (simp add: dec_defs run_loop.simps)

text \<open>
  Claim C3, amended. The unpickler has no check of balance. \<^verbatim>\<open>STOP\<close> ends the loop of
  \<^verbatim>\<open>run\<close> with success whatever the mark stack holds, so a stream whose \<^verbatim>\<open>MARK\<close> is
  never closed is accepted when it leaves one tuple or list on the stack. A close opcode
  (\<^verbatim>\<open>TUPLE\<close>, \<^verbatim>\<open>APPENDS\<close>, \<^verbatim>\<open>SETITEMS\<close>) that succeeds has found a mark and has popped
  exactly the topmost one. What a close opcode does on an empty mark stack is not part of
  the statement.
\<close>

theorem no_balance_check:
  "(pos s < length (bytes s) \<and> bytes s ! pos s = opcode_byte STOP
      \<longrightarrow> run_loop tag s = Inr (s\<lparr>pos := pos s + 1\<rparr>))
   \<and> (case_TUPLE s = Inr s' \<longrightarrow> marks s \<noteq> [] \<and> marks s' = butlast (marks s))
   \<and> (readList s = Inr s' \<longrightarrow> marks s \<noteq> [] \<and> marks s' = butlast (marks s))
   \<and> (case_SETITEMS s = Inr s' \<longrightarrow> marks s \<noteq> [] \<and> marks s' = butlast (marks s))"
  using run_loop_STOP [of s tag] case_TUPLE_marks [of s s'] readList_marks [of s s']
    case_SETITEMS_marks [of s s']
  by blast

text \<open>
  A state inside the stream \<^verbatim>\<open>PROTO 2 MARK MARK EMPTY_TUPLE TUPLE STOP\<close>, before its
  \<^verbatim>\<open>TUPLE\<close>: two marks are open. \<^verbatim>\<open>TUPLE\<close> pops one of them, and \<^verbatim>\<open>STOP\<close> returns
  with the other one open.
\<close>

definition open_mark_state :: Unpickler where
  "open_mark_state =
    \<lparr>bytes = [0x80, 2, 0x28, 0x28, 0x29, 0x74, 0x2E], pos = 5, vstack = [IV (UTuple [])],
     marks = [0, 0], memo_table = [], tensors = None, last_opcode = EMPTY_TUPLE, heap = []\<rparr>"

theorem no_balance_check_witness:
  "case_TUPLE open_mark_state
     = Inr (open_mark_state\<lparr>vstack := [IV (UTuple [UTuple []])], marks := [0]\<rparr>)
   \<and> run_loop tag_values
        (open_mark_state\<lparr>pos := 6, vstack := [IV (UTuple [UTuple []])], marks := [0]\<rparr>)
       = Inr (open_mark_state\<lparr>pos := 7, vstack := [IV (UTuple [UTuple []])], marks := [0]\<rparr>)
   \<and> marks (open_mark_state\<lparr>vstack := [IV (UTuple [UTuple []])], marks := [0]\<rparr>)
       = butlast (marks open_mark_state)"
proof -
  have t: "case_TUPLE open_mark_state
     = Inr (open_mark_state\<lparr>vstack := [IV (UTuple [UTuple []])], marks := [0]\<rparr>)"
    by (simp add: open_mark_state_def case_TUPLE_def ivalue_def push_entry_def)
  have g: "pos (open_mark_state\<lparr>pos := 6, vstack := [IV (UTuple [UTuple []])], marks := [0]\<rparr>)
      < length (bytes (open_mark_state\<lparr>pos := 6, vstack := [IV (UTuple [UTuple []])],
                          marks := [0]\<rparr>))
    \<and> bytes (open_mark_state\<lparr>pos := 6, vstack := [IV (UTuple [UTuple []])], marks := [0]\<rparr>)
        ! pos (open_mark_state\<lparr>pos := 6, vstack := [IV (UTuple [UTuple []])], marks := [0]\<rparr>)
      = opcode_byte STOP"
    by (simp add: open_mark_state_def)
  from no_balance_check
    [of "open_mark_state\<lparr>pos := 6, vstack := [IV (UTuple [UTuple []])], marks := [0]\<rparr>"
        tag_values "open_mark_state\<lparr>pos := 6\<rparr>"] g
  have r: "run_loop tag_values
        (open_mark_state\<lparr>pos := 6, vstack := [IV (UTuple [UTuple []])], marks := [0]\<rparr>)
       = Inr (open_mark_state\<lparr>pos := 7, vstack := [IV (UTuple [UTuple []])], marks := [0]\<rparr>)"
    by (simp add: open_mark_state_def)
  from no_balance_check
    [of open_mark_state tag_values
        "open_mark_state\<lparr>vstack := [IV (UTuple [UTuple []])], marks := [0]\<rparr>"] t
  have m: "marks (open_mark_state\<lparr>vstack := [IV (UTuple [UTuple []])], marks := [0]\<rparr>)
       = butlast (marks open_mark_state)"
    by blast
  from t r m show ?thesis by blast
qed

section \<open>Reads of the input\<close>

text \<open>
  Claim C4 says that no operation of the unpickler reads a byte at or beyond
  \<^verbatim>\<open>end_ptr_\<close>, also when an identifier is cut off by the end of the input.
  \<^verbatim>\<open>Unpickler::readString\<close> checks the end after it has incremented \<open>n\<close>; the first
  character \<^verbatim>\<open>chars[0]\<close> is read before any check. When \<^verbatim>\<open>GLOBAL\<close> is the last byte of
  the input, or the module name ends with the last byte, that read is at \<^verbatim>\<open>end_ptr_\<close>.
\<close>

theorem readString_reads_at_end:
  "run tag_values (new_Unpickler [0x80, 2, 0x63] None) = Inl UB_read_past_end
   \<and> run tag_values (new_Unpickler [0x80, 2, 0x63, 0x61, 0x0A] None) = Inl UB_read_past_end"
  by (simp add: dec_defs run_loop.simps readString_loop.simps)

section \<open>Dictionaries\<close>

text \<open>
  Claim C5 says that for every dictionary the pairs are written in iteration order and
  that decoding the stream gives a dictionary with the same key order. The second half
  fails for a dictionary that holds \<open>None\<close>, by the missing case for \<^verbatim>\<open>NONE\<close> in
  \<^verbatim>\<open>Unpickler::readInstruction\<close>: the session for the dictionary \<open>{1: None}\<close> produces
  the bytes below, and decoding them ends with "Unknown opcode" at the byte \<open>0x4E\<close>.
\<close>

theorem Dict_holding_None_is_not_decoded:
  "stack (pickle_one None (VGenericDict (Obj 0) [(VInt 1, VNone)]))
     = [0x80, 2, 0x28, 0x7D, 0x71, 0, 0x28, 0x4B, 1, 0x4E, 0x75, 0x74, 0x2E]
   \<and> parse_ivalue_list tag_values
        (new_Unpickler (stack (pickle_one None (VGenericDict (Obj 0) [(VInt 1, VNone)]))) None)
       = Inl (UnknownOpcode 0x4E)"
proof -
  have e: "stack (pickle_one None (VGenericDict (Obj 0) [(VInt 1, VNone)]))
     = [0x80, 2, 0x28, 0x7D, 0x71, 0, 0x28, 0x4B, 1, 0x4E, 0x75, 0x74, 0x2E]"
    by (simp add: enc_defs)
  show ?thesis
    unfolding e by (simp add: dec_defs run_loop.simps)
qed

text \<open>
  A dictionary of integers whose iteration order is not the order of its keys: the pairs
  are written in iteration order, and the decoded dictionary has them in that order.
\<close>

lemma Dict_of_Ints_example:
  "stack (pickle_one None (VGenericDict (Obj 0) [(VInt 3, VInt 4), (VInt 1, VInt 2)]))
     = [0x80, 2, 0x28, 0x7D, 0x71, 0, 0x28, 0x4B, 3, 0x4B, 4, 0x4B, 1, 0x4B, 2, 0x75, 0x74, 0x2E]
   \<and> parse_ivalue_list tag_values
        (new_Unpickler
          (stack (pickle_one None (VGenericDict (Obj 0) [(VInt 3, VInt 4), (VInt 1, VInt 2)])))
          None)
       = Inr ([UGenericDict 0],
           \<lparr>bytes = [0x80, 2, 0x28, 0x7D, 0x71, 0, 0x28, 0x4B, 3, 0x4B, 4, 0x4B, 1, 0x4B, 2,
                     0x75, 0x74, 0x2E],
            pos = 18, vstack = [IV (UTuple [UGenericDict 0])], marks = [],
            memo_table = [IV (UGenericDict 0)], tensors = None, last_opcode = TUPLE,
            heap = [HGenericDict [(UInt 3, UInt 4), (UInt 1, UInt 2)]]\<rparr>)"
proof -
  have e: "stack (pickle_one None (VGenericDict (Obj 0) [(VInt 3, VInt 4), (VInt 1, VInt 2)]))
     = [0x80, 2, 0x28, 0x7D, 0x71, 0, 0x28, 0x4B, 3, 0x4B, 4, 0x4B, 1, 0x4B, 2, 0x75, 0x74, 0x2E]"
    by (simp add: enc_defs)
  show ?thesis
    unfolding e by (simp add: dec_defs run_loop.simps)
qed

section \<open>The opcode \<^verbatim>\<open>EMPTY_LIST\<close>\<close>

lemma readInstruction_EMPTY_LIST:
  "pos s < length (bytes s) \<Longrightarrow> bytes s ! pos s = opcode_byte EMPTY_LIST \<Longrightarrow>
   readInstruction tag s
     = bind (case_EMPTY_LIST tag (s\<lparr>pos := pos s + 1\<rparr>)) (\<lambda>s. Inr (EMPTY_LIST, s))"
  by (simp add: readInstruction_def readOpCode_at opcode_of_byte_def)

lemma case_EMPTY_LIST_NEWOBJ_INTLIST:
  assumes "last_opcode s = NEWOBJ" "vstack s \<noteq> []" "last (vstack s) = IV (UInt v)"
    "0 \<le> sint v" "sint v \<le> 255" "ucast v = enumerator tag INTLIST"
  shows "case_EMPTY_LIST tag s = Inr (push_new_IntList [] s)"
  using assms by (simp add: case_EMPTY_LIST_def ivalue_def toInt_def word_sle_eq)

lemma case_EMPTY_LIST_marker_INTLIST:
  assumes "last_opcode s \<noteq> NEWOBJ" "vstack s \<noteq> []" "last (vstack s) = PC INTLIST"
  shows "case_EMPTY_LIST tag s = Inr (push_new_IntList [] s)"
  using assms by (simp add: case_EMPTY_LIST_def pickler_class_def pickler_class_opt_def)

lemma case_EMPTY_LIST_marker_other:
  assumes "last_opcode s \<noteq> NEWOBJ" "vstack s \<noteq> []" "last (vstack s) = PC c" "c \<noteq> INTLIST"
  shows "case_EMPTY_LIST tag s = Inl UnknownListSpecialization"
  using assms by (simp add: case_EMPTY_LIST_def pickler_class_def pickler_class_opt_def)

lemma case_EMPTY_LIST_generic:
  assumes "last_opcode s \<noteq> NEWOBJ" "vstack s = [] \<or> last (vstack s) = IV v"
  shows "case_EMPTY_LIST tag s = Inr (push_new_GenericList [] s)"
  using assms by (auto simp add: case_EMPTY_LIST_def pickler_class_def pickler_class_opt_def)

lemma push_new_IntList_eq:
  "push_new_IntList ns s
    = s\<lparr>heap := heap s @ [HIntList ns], vstack := vstack s @ [IV (UIntList (length (heap s)))]\<rparr>"
  by (simp add: push_new_IntList_def alloc_def push_entry_def)

lemma push_new_GenericList_eq:
  "push_new_GenericList xs s
    = s\<lparr>heap := heap s @ [HGenericList xs],
         vstack := vstack s @ [IV (UGenericList (length (heap s)))]\<rparr>"
  by (simp add: push_new_GenericList_def alloc_def push_entry_def)

text \<open>
  Claim C6 as stated does not hold. With the class marker \<open>TENSOR\<close> on top of the stack
  (and a previous opcode other than \<^verbatim>\<open>NEWOBJ\<close>), \<^verbatim>\<open>EMPTY_LIST\<close> raises "Unknown list
  specialization"; after \<^verbatim>\<open>NEWOBJ\<close>, with the integer tag of \<open>TENSOR\<close> on top, it pushes
  nothing. The claim says that each of the two pushes one empty generic list.
\<close>

theorem EMPTY_LIST_counterexample:
  "case_EMPTY_LIST tag_values
     \<lparr>bytes = [0x5D], pos = 1, vstack = [PC TENSOR], marks = [], memo_table = [],
      tensors = None, last_opcode = GLOBAL, heap = []\<rparr>
     = Inl UnknownListSpecialization
   \<and> case_EMPTY_LIST tag_values
     \<lparr>bytes = [0x5D], pos = 1, vstack = [IV (UInt 0)], marks = [], memo_table = [],
      tensors = None, last_opcode = NEWOBJ, heap = []\<rparr>
     = Inr \<lparr>bytes = [0x5D], pos = 1, vstack = [IV (UInt 0)], marks = [], memo_table = [],
      tensors = None, last_opcode = NEWOBJ, heap = []\<rparr>"
  by (simp add: dec_defs word_sle_eq)

text \<open>
  Claim C6, amended. \<^verbatim>\<open>EMPTY_LIST\<close> pushes a new empty integer list when the previous
  opcode was \<^verbatim>\<open>NEWOBJ\<close> and the top of the stack is an integer in \<open>[0, 255]\<close> that is the
  value of the enumerator \<open>INTLIST\<close>, or when the previous opcode was not \<^verbatim>\<open>NEWOBJ\<close>
  and the top of the stack is the class marker \<open>INTLIST\<close>. When the previous opcode was not
  \<^verbatim>\<open>NEWOBJ\<close> and the top is a class marker other than \<open>INTLIST\<close>, it raises "Unknown list
  specialization". When the previous opcode was not \<^verbatim>\<open>NEWOBJ\<close> and the stack is empty or
  has a value on top, it pushes exactly one new empty generic list. Nothing is stated for
  an integer tag other than \<open>INTLIST\<close> after \<^verbatim>\<open>NEWOBJ\<close>.
\<close>

theorem EMPTY_LIST_cases:
  "(last_opcode s = NEWOBJ \<and> vstack s \<noteq> [] \<and> last (vstack s) = IV (UInt v)
      \<and> 0 \<le> sint v \<and> sint v \<le> 255 \<and> ucast v = enumerator tag INTLIST
     \<longrightarrow> case_EMPTY_LIST tag s
          = Inr (s\<lparr>heap := heap s @ [HIntList []],
                   vstack := vstack s @ [IV (UIntList (length (heap s)))]\<rparr>))
   \<and> (last_opcode s \<noteq> NEWOBJ \<and> vstack s \<noteq> [] \<and> last (vstack s) = PC INTLIST
     \<longrightarrow> case_EMPTY_LIST tag s
          = Inr (s\<lparr>heap := heap s @ [HIntList []],
                   vstack := vstack s @ [IV (UIntList (length (heap s)))]\<rparr>))
   \<and> (last_opcode s \<noteq> NEWOBJ \<and> vstack s \<noteq> [] \<and> last (vstack s) = PC c \<and> c \<noteq> INTLIST
     \<longrightarrow> case_EMPTY_LIST tag s = Inl UnknownListSpecialization)
   \<and> (last_opcode s \<noteq> NEWOBJ \<and> (vstack s = [] \<or> last (vstack s) = IV u)
     \<longrightarrow> case_EMPTY_LIST tag s
          = Inr (s\<lparr>heap := heap s @ [HGenericList []],
                   vstack := vstack s @ [IV (UGenericList (length (heap s)))]\<rparr>))
   \<and> (pos s < length (bytes s) \<and> bytes s ! pos s = opcode_byte EMPTY_LIST
     \<longrightarrow> readInstruction tag s
          = bind (case_EMPTY_LIST tag (s\<lparr>pos := pos s + 1\<rparr>)) (\<lambda>s. Inr (EMPTY_LIST, s)))"
  using case_EMPTY_LIST_NEWOBJ_INTLIST [of s v tag] case_EMPTY_LIST_marker_INTLIST [of s tag]
    case_EMPTY_LIST_marker_other [of s c tag] case_EMPTY_LIST_generic [of s u tag]
    readInstruction_EMPTY_LIST [of s tag]
  by (simp add: push_new_IntList_eq push_new_GenericList_eq)

text \<open>A state before an \<^verbatim>\<open>EMPTY_LIST\<close> opcode, with a given stack and previous opcode.\<close>

definition list_state :: "StackEntry list \<Rightarrow> OpCode \<Rightarrow> Unpickler" where
  "list_state st opc =
    \<lparr>bytes = [0x5D], pos = 0, vstack = st, marks = [], memo_table = [], tensors = None,
     last_opcode = opc, heap = []\<rparr>"

theorem EMPTY_LIST_cases_witness:
  "readInstruction tag_values (list_state [IV (UInt 1)] NEWOBJ)
     = Inr (EMPTY_LIST, (list_state [IV (UInt 1)] NEWOBJ)
         \<lparr>pos := 1, heap := [HIntList []], vstack := [IV (UInt 1), IV (UIntList 0)]\<rparr>)
   \<and> readInstruction tag_values (list_state [PC INTLIST] GLOBAL)
     = Inr (EMPTY_LIST, (list_state [PC INTLIST] GLOBAL)
         \<lparr>pos := 1, heap := [HIntList []], vstack := [PC INTLIST, IV (UIntList 0)]\<rparr>)
   \<and> readInstruction tag_values (list_state [PC TENSOR] GLOBAL)
     = Inl UnknownListSpecialization
   \<and> readInstruction tag_values (list_state [] MARK)
     = Inr (EMPTY_LIST, (list_state [] MARK)
         \<lparr>pos := 1, heap := [HGenericList []], vstack := [IV (UGenericList 0)]\<rparr>)
   \<and> readInstruction tag_values (list_state [IV (UBool True)] NEWTRUE)
     = Inr (EMPTY_LIST, (list_state [IV (UBool True)] NEWTRUE)
         \<lparr>pos := 1, heap := [HGenericList []],
          vstack := [IV (UBool True), IV (UGenericList 0)]\<rparr>)"
  using EMPTY_LIST_cases [of "list_state [IV (UInt 1)] NEWOBJ" 1 tag_values INTLIST UNone]
    EMPTY_LIST_cases [of "(list_state [IV (UInt 1)] NEWOBJ)\<lparr>pos := 1\<rparr>" 1 tag_values INTLIST UNone]
    EMPTY_LIST_cases [of "list_state [PC INTLIST] GLOBAL" 1 tag_values INTLIST UNone]
    EMPTY_LIST_cases [of "(list_state [PC INTLIST] GLOBAL)\<lparr>pos := 1\<rparr>" 1 tag_values INTLIST UNone]
    EMPTY_LIST_cases [of "list_state [PC TENSOR] GLOBAL" 1 tag_values TENSOR UNone]
    EMPTY_LIST_cases [of "(list_state [PC TENSOR] GLOBAL)\<lparr>pos := 1\<rparr>" 1 tag_values TENSOR UNone]
    EMPTY_LIST_cases [of "list_state [] MARK" 1 tag_values TENSOR UNone]
    EMPTY_LIST_cases [of "(list_state [] MARK)\<lparr>pos := 1\<rparr>" 1 tag_values TENSOR UNone]
    EMPTY_LIST_cases [of "list_state [IV (UBool True)] NEWTRUE" 1 tag_values TENSOR "UBool True"]
    EMPTY_LIST_cases [of "(list_state [IV (UBool True)] NEWTRUE)\<lparr>pos := 1\<rparr>" 1 tag_values TENSOR "UBool True"]
  by (simp add: list_state_def tag_values_def)


section \<open>The bytes of single instructions\<close>

text \<open>
  What \<^verbatim>\<open>pushInt\<close>, \<^verbatim>\<open>pushNextBinPut\<close> and \<^verbatim>\<open>pushBinGet\<close> append to the buffer, as
  functions of the integer and of the memo id.
\<close>

definition Int_bytes :: "64 word \<Rightarrow> byte list" where
  "Int_bytes n =
    (if - 128 \<le> sint n \<and> sint n \<le> 127 then [opcode_byte BININT1, ucast n]
     else if - 2147483648 \<le> sint n \<and> sint n \<le> 2147483647
          then opcode_byte BININT # word32_bytes (ucast n)
     else opcode_byte LONG1 # 8 # word64_bytes n)"

definition BinPut_bytes :: "32 word \<Rightarrow> byte list" where
  "BinPut_bytes mid =
    (if mid \<le> 255 then [opcode_byte BINPUT, ucast mid]
     else opcode_byte LONG_BINPUT # word32_bytes mid)"

definition BinGet_bytes :: "32 word \<Rightarrow> byte list" where
  "BinGet_bytes mid =
    (if mid \<le> 255 then [opcode_byte BINGET, ucast mid]
     else opcode_byte LONG_BINGET # word32_bytes mid)"

lemma push_bytes_fields [simp]:
  "stack (push_bytes bs p) = stack p @ bs"
  "memo_map (push_bytes bs p) = memo_map p"
  "memoized_strings_map (push_bytes bs p) = memoized_strings_map p"
  "memoized_ivalues (push_bytes bs p) = memoized_ivalues p"
  "tensor_table (push_bytes bs p) = tensor_table p"
  "literal_tensors (push_bytes bs p) = literal_tensors p"
  "memo_id (push_bytes bs p) = memo_id p"
  by (simp_all add: push_bytes_def)

lemma new_Pickler_fields [simp]:
  "stack (new_Pickler tt) = []"
  "memo_map (new_Pickler tt) = Map.empty"
  "memoized_strings_map (new_Pickler tt) = Map.empty"
  "memoized_ivalues (new_Pickler tt) = []"
  "tensor_table (new_Pickler tt) = tt"
  "literal_tensors (new_Pickler tt) = []"
  "memo_id (new_Pickler tt) = 0"
  by (simp_all add: new_Pickler_def)

lemma push_bytes_push_bytes [simp]: "push_bytes bs (push_bytes as p) = push_bytes (as @ bs) p"
  by (simp add: push_bytes_def)

lemma push_OpCode_eq: "push_OpCode opc p = push_bytes [opcode_byte opc] p"
  by (simp add: push_OpCode_def)

lemma pushInt_eq: "pushInt n p = push_bytes (Int_bytes n) p"
  by (simp add: pushInt_def Int_bytes_def sle_iff push_int8_def push_int32_def push_int64_def
      push_uint8_def push_OpCode_def)

lemma pushBinGet_eq: "pushBinGet mid p = push_bytes (BinGet_bytes mid) p"
  by (simp add: pushBinGet_def BinGet_bytes_def push_uint8_def push_uint32_def push_OpCode_def)

lemma pushDouble_eq:
  "pushDouble d p = push_bytes (opcode_byte BINFLOAT # rev (word64_bytes d)) p"
  by (simp add: pushDouble_def push_OpCode_def)

lemma pushNextBinPut_eq:
  "pushNextBinPut p
    = (memo_id p, (push_bytes (BinPut_bytes (memo_id p)) p)\<lparr>memo_id := memo_id p + 1\<rparr>)"
  by (simp add: pushNextBinPut_def BinPut_bytes_def push_uint8_def push_uint32_def
      push_OpCode_def Let_def)

lemma pushMemoization_ptr_eq:
  "pushMemoization_ptr a p
    = (push_bytes (BinPut_bytes (memo_id p)) p)
        \<lparr>memo_id := memo_id p + 1, memo_map := (memo_map p)(a \<mapsto> memo_id p)\<rparr>"
  by (simp add: pushMemoization_ptr_def pushNextBinPut_eq)

lemma pushMemoization_eq:
  "getPointer v = Some a \<Longrightarrow>
   pushMemoization v p
    = (push_bytes (BinPut_bytes (memo_id p)) p)
        \<lparr>memoized_ivalues := memoized_ivalues p @ [v], memo_id := memo_id p + 1,
         memo_map := (memo_map p)(a \<mapsto> memo_id p)\<rparr>"
  by (simp add: pushMemoization_def pushMemoization_ptr_eq Let_def push_bytes_def)

lemma pushMemoizedString_eq:
  "pushMemoizedString (VString a str) p
    = (push_bytes (opcode_byte BINUNICODE # word32_bytes (of_nat (length str)) @ str
                   @ BinPut_bytes (memo_id p)) p)
        \<lparr>memoized_ivalues := memoized_ivalues p @ [VString a str], memo_id := memo_id p + 1,
         memo_map := (memo_map p)(a \<mapsto> memo_id p)\<rparr>"
  by (simp add: pushMemoizedString_def pushMemoization_eq Let_def string_bytes_def
      push_OpCode_def push_uint32_def pushString_def)

lemma pushGlobal_eq:
  "pushGlobal g p =
    (case memoized_strings_map p g of
       None \<Rightarrow>
         (push_bytes (opcode_byte GLOBAL # g @ BinPut_bytes (memo_id p)) p)
           \<lparr>memo_id := memo_id p + 1,
            memoized_strings_map := (memoized_strings_map p)(g \<mapsto> memo_id p)\<rparr>
     | Some mid \<Rightarrow> push_bytes (BinGet_bytes mid) p)"
  by (simp add: pushGlobal_def pushNextBinPut_eq pushBinGet_eq push_OpCode_def pushString_def
      Let_def split: option.splits)

lemma fold_pushInt_eq: "fold pushInt ns p = push_bytes (concat (map Int_bytes ns)) p"
  by (induction ns arbitrary: p) (simp_all add: pushInt_eq push_bytes_def)

lemma addIValue_VInt: "addIValue (VInt n) p = push_bytes (Int_bytes n) p"
  by (simp add: addIValue.simps pushInt_eq)

lemma addIValue_VBool:
  "addIValue (VBool b) p = push_bytes [opcode_byte (if b then NEWTRUE else NEWFALSE)] p"
  by (simp add: addIValue.simps push_OpCode_def)

lemma addIValue_VTensor: "addIValue (VTensor t) p = pushTensor t p"
  by (simp add: addIValue.simps)

section \<open>Tensor references\<close>

text \<open>The global of the tensor class: module name and class name, each with its newline.\<close>

definition tensor_class_global :: "byte list" where
  "tensor_class_global = getModuleName @ getClassName TENSOR"





text \<open>A tensor of two floats, \<open>1.0\<close> and \<open>2.0\<close>, on a CPU storage at address \<open>4096\<close>.\<close>

definition example_tensor :: Tensor where
  "example_tensor =
    \<lparr>scalar_type = ''Float'', sizes = [2], strides = [1], numel = 2, element_size = 4,
     requires_grad = False,
     storage = \<lparr>storage_key = 4096, storage_size = 2, storage_is_cuda = False,
                storage_data = [0, 0, 0x80, 0x3F, 0, 0, 0, 0x40]\<rparr>\<rparr>"

lemma tensor_class_global_bytes:
  "tensor_class_global =
    [0x74, 0x6F, 0x72, 0x63, 0x68, 0x2E, 0x6A, 0x69, 0x74, 0x2E, 0x5F, 0x70, 0x69, 0x63, 0x6B,
     0x6C, 0x65, 0x0A, 0x62, 0x75, 0x69, 0x6C, 0x64, 0x5F, 0x74, 0x65, 0x6E, 0x73, 0x6F, 0x72,
     0x5F, 0x66, 0x72, 0x6F, 0x6D, 0x5F, 0x69, 0x64, 0x0A]"
  by (simp add: tensor_class_global_def getModuleName_def bytes_of_def byte_of_char_def)




section \<open>Literal tensors\<close>

lemma pushGlobal_keeps [simp]:
  "tensor_table (pushGlobal g p) = tensor_table p"
  "literal_tensors (pushGlobal g p) = literal_tensors p"
  by (simp_all add: pushGlobal_eq split: option.splits)

lemma pushMemoizedString_keeps [simp]:
  "tensor_table (pushMemoizedString (VString a str) p) = tensor_table p"
  "literal_tensors (pushMemoizedString (VString a str) p) = literal_tensors p"
  by (simp_all add: pushMemoizedString_eq)

lemma pushLiteralTensor_tables:
  "literal_tensors (pushLiteralTensor t p) = literal_tensors p @ [t]
   \<and> tensor_table (pushLiteralTensor t p) = tensor_table p"
  by (simp add: pushLiteralTensor.simps Let_def push_OpCode_eq pushInt_eq fold_pushInt_eq
      addIValue_VBool)

text \<open>The key string of a tensor, its entry in the key program, and its record.\<close>

definition key_string :: "Tensor \<Rightarrow> byte list" where
  "key_string t = to_string (unat (getStorageKey t))"

definition key_entry :: "Tensor \<Rightarrow> byte list" where
  "key_entry t =
    opcode_byte BINUNICODE # word32_bytes (of_nat (length (key_string t))) @ key_string t"

definition record_data :: "Tensor \<Rightarrow> byte list" where
  "record_data t =
    take (unat (element_size t * storage_size (storage t))) (storage_data (storage t))"

definition tensor_record :: "Tensor \<Rightarrow> byte list" where
  "tensor_record t = word64_bytes (numel t) @ record_data t"

lemma pushTensorData_eq: "pushTensorData t p = push_bytes (tensor_record t) p"
  by (simp add: pushTensorData_def getWriteableTensor_def tensor_record_def record_data_def
      Let_def)

lemma fold_push_bytes:
  "fold (\<lambda>t q. push_bytes (f t) q) ts p = push_bytes (concat (map f ts)) p"
  by (induction ts arbitrary: p) (simp_all add: push_bytes_def)

lemma finish_stack:
  "stack (finish p) = stack p @ [opcode_byte STOP]
     @ (if literal_tensors p = [] then []
        else [opcode_byte PROTO, 2, opcode_byte MARK]
             @ concat (map key_entry (literal_tensors p))
             @ [opcode_byte TUPLE, opcode_byte STOP]
             @ concat (map tensor_record (literal_tensors p)))"
proof -
  have k: "(\<lambda>t q. pushString (to_string (unat (getStorageKey t)))
              (push_uint32 (of_nat (length (to_string (unat (getStorageKey t)))))
                 (push_OpCode BINUNICODE q)))
      = (\<lambda>t q. push_bytes (key_entry t) q)"
    by (simp add: fun_eq_iff key_entry_def key_string_def pushString_def push_uint32_def
        push_OpCode_def)
  have d: "pushTensorData = (\<lambda>t q. push_bytes (tensor_record t) q)"
    by (simp add: fun_eq_iff pushTensorData_eq)
  show ?thesis
    unfolding finish_def Let_def
    unfolding k d fold_push_bytes
    by (simp add: start_def push_OpCode_eq push_uint8_def PROTOCOL_VERSION_def)
qed

text \<open>
  Claim C10. In literal mode every emission of a tensor appends the tensor to the list of
  literal tensors; nothing looks for a storage that is already there. After two emissions
  \<^verbatim>\<open>finish\<close> writes \<^verbatim>\<open>STOP\<close>, the key program with one key entry for each tensor of
  the list in the order of emission, and one record for each tensor in the same order.
  When the two handles have the same storage, the two key strings are the same decimal
  number, and the data of both records are bytes of that one storage, the same bytes when
  the handles have the same element size.
\<close>

theorem literal_tensors_are_not_deduplicated:
  assumes "tensor_table p = None"
  shows "literal_tensors (addIValue (VTensor t1) p) = literal_tensors p @ [t1]
    \<and> literal_tensors (addIValue (VTensor t2) (addIValue (VTensor t1) p))
        = literal_tensors p @ [t1, t2]
    \<and> stack (finish (addIValue (VTensor t2) (addIValue (VTensor t1) p)))
        = stack (addIValue (VTensor t2) (addIValue (VTensor t1) p))
          @ [opcode_byte STOP, opcode_byte PROTO, 2, opcode_byte MARK]
          @ concat (map key_entry (literal_tensors p)) @ key_entry t1 @ key_entry t2
          @ [opcode_byte TUPLE, opcode_byte STOP]
          @ concat (map tensor_record (literal_tensors p))
          @ (word64_bytes (numel t1) @ record_data t1)
          @ (word64_bytes (numel t2) @ record_data t2)
    \<and> (storage t1 = storage t2 \<longrightarrow>
          key_string t2 = key_string t1
          \<and> key_entry t2 = key_entry t1
          \<and> record_data t2
              = take (unat (element_size t2 * storage_size (storage t1)))
                     (storage_data (storage t1))
          \<and> (element_size t1 = element_size t2 \<longrightarrow> record_data t2 = record_data t1))"
proof -
  have 1: "addIValue (VTensor t1) p = pushLiteralTensor t1 p"
    using assms by (simp add: addIValue_VTensor pushTensor.simps)
  have n: "tensor_table (pushLiteralTensor t1 p) = None"
    using assms by (simp add: pushLiteralTensor_tables)
  have 2: "addIValue (VTensor t2) (pushLiteralTensor t1 p)
      = pushLiteralTensor t2 (pushLiteralTensor t1 p)"
    using n by (simp add: addIValue_VTensor pushTensor.simps)
  have l: "literal_tensors (pushLiteralTensor t2 (pushLiteralTensor t1 p))
      = literal_tensors p @ [t1, t2]"
    by (simp add: pushLiteralTensor_tables)
  show ?thesis
    unfolding 1 2
    by (simp add: finish_stack l pushLiteralTensor_tables tensor_record_def key_entry_def
        key_string_def getStorageKey_def record_data_def)
qed


section \<open>Memo ids\<close>

text \<open>
  Every memo id in the table of memoized values and in the table of memoized globals is
  below \<^verbatim>\<open>memo_id_\<close>, the number of \<^verbatim>\<open>PUT\<close> opcodes written so far.
\<close>

definition memo_ok :: "Pickler \<Rightarrow> bool" where
  "memo_ok p \<longleftrightarrow>
     (\<forall>a mid. memo_map p a = Some mid \<longrightarrow> unat mid < unat (memo_id p))
     \<and> (\<forall>g mid. memoized_strings_map p g = Some mid \<longrightarrow> unat mid < unat (memo_id p))"

text \<open>A bound on the number of \<^verbatim>\<open>PUT\<close> opcodes the emission of a value writes.\<close>

fun puts_bound :: "IValue \<Rightarrow> nat" where
  "puts_bound (VString a str) = 1"
| "puts_bound (VTuple a xs) = 1 + sum_list (map puts_bound xs)"
| "puts_bound (VGenericList a xs) = 1 + sum_list (map puts_bound xs)"
| "puts_bound (VGenericDict a kvs) =
     1 + sum_list (map (\<lambda>pair. puts_bound (fst pair) + puts_bound (snd pair)) kvs)"
| "puts_bound (VIntList a ns) = 2"
| "puts_bound (VTensor t) = 6"
| "puts_bound v = 0"

text \<open>
  What every step of the pickler does to the memo: the tables keep their keys, the buffer
  is extended, and as long as the counter does not wrap around, the ids in the tables stay
  below the counter, which grows by at most \<open>n\<close>.
\<close>

definition advance :: "nat \<Rightarrow> Pickler \<Rightarrow> Pickler \<Rightarrow> bool" where
  "advance n p p' \<longleftrightarrow>
     dom (memo_map p) \<subseteq> dom (memo_map p')
     \<and> dom (memoized_strings_map p) \<subseteq> dom (memoized_strings_map p')
     \<and> (\<exists>bs. stack p' = stack p @ bs)
     \<and> (memo_ok p \<and> unat (memo_id p) + n < 2 ^ 32 \<longrightarrow>
          memo_ok p' \<and> unat (memo_id p) \<le> unat (memo_id p')
          \<and> unat (memo_id p') \<le> unat (memo_id p) + n)"

lemma advanceI:
  assumes "dom (memo_map p) \<subseteq> dom (memo_map p')"
    and "dom (memoized_strings_map p) \<subseteq> dom (memoized_strings_map p')"
    and "\<exists>bs. stack p' = stack p @ bs"
    and "memo_ok p \<Longrightarrow> unat (memo_id p) + n < 2 ^ 32 \<Longrightarrow>
          memo_ok p' \<and> unat (memo_id p) \<le> unat (memo_id p')
          \<and> unat (memo_id p') \<le> unat (memo_id p) + n"
  shows "advance n p p'"
  using assms unfolding advance_def by blast

lemma advance_dom: "advance n p p' \<Longrightarrow> dom (memo_map p) \<subseteq> dom (memo_map p')"
  unfolding advance_def by blast

lemma advance_dom_strings:
  "advance n p p' \<Longrightarrow> dom (memoized_strings_map p) \<subseteq> dom (memoized_strings_map p')"
  unfolding advance_def by blast

lemma advance_stack: "advance n p p' \<Longrightarrow> \<exists>bs. stack p' = stack p @ bs"
  unfolding advance_def by blast

lemma advance_ok:
  "advance n p p' \<Longrightarrow> memo_ok p \<Longrightarrow> unat (memo_id p) + n < 2 ^ 32 \<Longrightarrow>
   memo_ok p' \<and> unat (memo_id p) \<le> unat (memo_id p') \<and> unat (memo_id p') \<le> unat (memo_id p) + n"
  unfolding advance_def by blast

lemma advance_refl: "advance 0 p p"
  by (rule advanceI) simp_all

lemma advance_trans:
  assumes 1: "advance n p p1" and 2: "advance m p1 p2"
  shows "advance (n + m) p p2"
proof (rule advanceI)
  show "dom (memo_map p) \<subseteq> dom (memo_map p2)"
    using advance_dom [OF 1] advance_dom [OF 2] by (rule subset_trans)
  show "dom (memoized_strings_map p) \<subseteq> dom (memoized_strings_map p2)"
    using advance_dom_strings [OF 1] advance_dom_strings [OF 2] by (rule subset_trans)
  from advance_stack [OF 1] obtain bs where b: "stack p1 = stack p @ bs" ..
  from advance_stack [OF 2] obtain cs where c: "stack p2 = stack p1 @ cs" ..
  from b c have "stack p2 = stack p @ (bs @ cs)" by simp
  then show "\<exists>bs. stack p2 = stack p @ bs" ..
next
  assume ok: "memo_ok p" and lt: "unat (memo_id p) + (n + m) < 2 ^ 32"
  from lt have lt1: "unat (memo_id p) + n < 2 ^ 32" by simp
  from advance_ok [OF 1 ok lt1]
  have ok1: "memo_ok p1" and lo1: "unat (memo_id p) \<le> unat (memo_id p1)"
    and hi1: "unat (memo_id p1) \<le> unat (memo_id p) + n"
    by simp_all
  from hi1 lt have lt2: "unat (memo_id p1) + m < 2 ^ 32" by simp
  from advance_ok [OF 2 ok1 lt2]
  have ok2: "memo_ok p2" and lo2: "unat (memo_id p1) \<le> unat (memo_id p2)"
    and hi2: "unat (memo_id p2) \<le> unat (memo_id p1) + m"
    by simp_all
  from ok2 lo1 lo2 hi1 hi2
  show "memo_ok p2 \<and> unat (memo_id p) \<le> unat (memo_id p2)
      \<and> unat (memo_id p2) \<le> unat (memo_id p) + (n + m)"
    by simp
qed

lemma advance_mono:
  assumes 1: "advance n p p'" and le: "n \<le> m"
  shows "advance m p p'"
proof (rule advanceI)
  show "dom (memo_map p) \<subseteq> dom (memo_map p')" by (rule advance_dom [OF 1])
  show "dom (memoized_strings_map p) \<subseteq> dom (memoized_strings_map p')"
    by (rule advance_dom_strings [OF 1])
  show "\<exists>bs. stack p' = stack p @ bs" by (rule advance_stack [OF 1])
next
  assume ok: "memo_ok p" and lt: "unat (memo_id p) + m < 2 ^ 32"
  from lt le have lt1: "unat (memo_id p) + n < 2 ^ 32" by simp
  from advance_ok [OF 1 ok lt1] le
  show "memo_ok p' \<and> unat (memo_id p) \<le> unat (memo_id p')
      \<and> unat (memo_id p') \<le> unat (memo_id p) + m"
    by simp
qed

lemma advance_push_bytes: "advance 0 p (push_bytes bs p)"
  by (rule advanceI) (simp_all add: memo_ok_def)

lemma unat_succ32: "unat (x :: 32 word) + 1 < 2 ^ 32 \<Longrightarrow> unat (x + 1) = unat x + 1"
  by (simp add: unat_word_ariths)

lemma memo_ok_put:
  assumes ok: "memo_ok p" and lt: "unat (memo_id p) + 1 < 2 ^ 32"
    and id: "memo_id p' = memo_id p + 1"
    and mm: "memo_map p' = memo_map p \<or> (\<exists>a. memo_map p' = (memo_map p)(a \<mapsto> memo_id p))"
    and sm: "memoized_strings_map p' = memoized_strings_map p
         \<or> (\<exists>g. memoized_strings_map p' = (memoized_strings_map p)(g \<mapsto> memo_id p))"
  shows "memo_ok p' \<and> unat (memo_id p) \<le> unat (memo_id p')
      \<and> unat (memo_id p') \<le> unat (memo_id p) + 1"
proof -
  have u: "unat (memo_id p') = unat (memo_id p) + 1"
    using id unat_succ32 [OF lt] by simp
  have a: "\<And>a mid. memo_map p' a = Some mid \<Longrightarrow> unat mid < unat (memo_id p')"
  proof -
    fix a mid assume h: "memo_map p' a = Some mid"
    from mm h have "memo_map p a = Some mid \<or> mid = memo_id p"
      by (auto split: if_splits)
    then show "unat mid < unat (memo_id p')"
      using ok u unfolding memo_ok_def by fastforce
  qed
  have b: "\<And>g mid. memoized_strings_map p' g = Some mid \<Longrightarrow> unat mid < unat (memo_id p')"
  proof -
    fix g mid assume h: "memoized_strings_map p' g = Some mid"
    from sm h have "memoized_strings_map p g = Some mid \<or> mid = memo_id p"
      by (auto split: if_splits)
    then show "unat mid < unat (memo_id p')"
      using ok u unfolding memo_ok_def by fastforce
  qed
  from a b u show ?thesis
    unfolding memo_ok_def by simp
qed

lemma advance_pushMemoization:
  assumes "getPointer v = Some a"
  shows "advance 1 p (pushMemoization v p)"
proof (rule advanceI)
  show "dom (memo_map p) \<subseteq> dom (memo_map (pushMemoization v p))"
    by (auto simp: pushMemoization_eq [OF assms])
  show "dom (memoized_strings_map p) \<subseteq> dom (memoized_strings_map (pushMemoization v p))"
    by (simp add: pushMemoization_eq [OF assms])
  show "\<exists>bs. stack (pushMemoization v p) = stack p @ bs"
    by (simp add: pushMemoization_eq [OF assms])
next
  assume ok: "memo_ok p" and lt: "unat (memo_id p) + 1 < 2 ^ 32"
  show "memo_ok (pushMemoization v p) \<and> unat (memo_id p) \<le> unat (memo_id (pushMemoization v p))
      \<and> unat (memo_id (pushMemoization v p)) \<le> unat (memo_id p) + 1"
    by (rule memo_ok_put [OF ok lt]) (auto simp: pushMemoization_eq [OF assms])
qed

lemma advance_pushGlobal: "advance 1 p (pushGlobal g p)"
proof (cases "memoized_strings_map p g")
  case None
  show ?thesis
  proof (rule advanceI)
    show "dom (memo_map p) \<subseteq> dom (memo_map (pushGlobal g p))"
      by (simp add: pushGlobal_eq None)
    show "dom (memoized_strings_map p) \<subseteq> dom (memoized_strings_map (pushGlobal g p))"
      by (auto simp: pushGlobal_eq None)
    show "\<exists>bs. stack (pushGlobal g p) = stack p @ bs"
      by (simp add: pushGlobal_eq None)
  next
    assume ok: "memo_ok p" and lt: "unat (memo_id p) + 1 < 2 ^ 32"
    show "memo_ok (pushGlobal g p) \<and> unat (memo_id p) \<le> unat (memo_id (pushGlobal g p))
        \<and> unat (memo_id (pushGlobal g p)) \<le> unat (memo_id p) + 1"
      by (rule memo_ok_put [OF ok lt]) (auto simp: pushGlobal_eq None)
  qed
next
  case (Some mid)
  have "pushGlobal g p = push_bytes (BinGet_bytes mid) p"
    by (simp add: pushGlobal_eq Some)
  then show ?thesis
    using advance_mono [OF advance_push_bytes [of p "BinGet_bytes mid"], of 1] by simp
qed

lemma advance_fold:
  assumes "\<And>x q. x \<in> set xs \<Longrightarrow> advance (b x) q (f x q)"
  shows "advance (sum_list (map b xs)) p (fold f xs p)"
  using assms
proof (induction xs arbitrary: p)
  case Nil
  show ?case by (simp add: advance_refl)
next
  case (Cons x xs)
  have 1: "advance (b x) p (f x p)" by (rule Cons.prems) simp
  have 2: "advance (sum_list (map b xs)) (f x p) (fold f xs (f x p))"
    by (rule Cons.IH) (rule Cons.prems, simp)
  from advance_trans [OF 1 2] show ?case by simp
qed


lemma advance_step:
  "advance n p p1 \<Longrightarrow> advance m p1 p2 \<Longrightarrow> n + m \<le> k \<Longrightarrow> advance k p p2"
  using advance_trans advance_mono by blast

lemma advance_bytes_then:
  assumes "advance n (push_bytes bs p) p'"
  shows "advance n p p'"
  using advance_step [OF advance_push_bytes assms] by simp

lemma advance_then_bytes:
  assumes "advance n p p'"
  shows "advance n p (push_bytes bs p')"
  using advance_step [OF assms advance_push_bytes] by simp

lemma addIValue_hit:
  "getPointer v = Some a \<Longrightarrow> memo_map p a = Some mid \<Longrightarrow>
   addIValue v p = push_bytes (BinGet_bytes mid) p"
  by (simp add: addIValue.simps pushBinGet_eq)

lemma pushMemoizedString_as:
  "pushMemoizedString (VString a str) p
    = pushMemoization (VString a str)
        (push_bytes (opcode_byte BINUNICODE # word32_bytes (of_nat (length str)) @ str) p)"
  by (simp add: pushMemoizedString_def Let_def string_bytes_def push_OpCode_def push_uint32_def
      pushString_def)

lemma pushTuple_as:
  "pushTuple a xs p
    = pushMemoization (VTuple a xs)
        (push_bytes [opcode_byte TUPLE] (fold addIValue xs (push_bytes [opcode_byte MARK] p)))"
  by (simp add: pushTuple.simps Let_def push_OpCode_def)

lemma pushList_as:
  "pushList a xs p
    = push_bytes [opcode_byte APPENDS]
        (fold addIValue xs
          (push_bytes [opcode_byte MARK]
            (pushMemoization (VGenericList a xs) (push_bytes [opcode_byte EMPTY_LIST] p))))"
  by (simp add: pushList.simps Let_def push_OpCode_def)

lemma pushDict_as:
  "pushDict a kvs p
    = push_bytes [opcode_byte SETITEMS]
        (fold (\<lambda>pair q. addIValue (snd pair) (addIValue (fst pair) q)) kvs
          (push_bytes [opcode_byte MARK]
            (pushMemoization (VGenericDict a kvs) (push_bytes [opcode_byte EMPTY_DICT] p))))"
  by (simp add: pushDict.simps Let_def push_OpCode_def)

lemma fold_addIValue_VInt:
  "fold (\<lambda>item. addIValue (VInt item)) ns p = push_bytes (concat (map Int_bytes ns)) p"
  by (induction ns arbitrary: p) (simp_all add: addIValue_VInt push_bytes_def)

lemma pushIntList_as:
  "pushIntList a ns p
    = pushMemoization (VIntList a ns)
        (push_bytes ([opcode_byte MARK, opcode_byte EMPTY_LIST, opcode_byte MARK]
                     @ concat (map Int_bytes ns)
                     @ [opcode_byte APPENDS, opcode_byte TUPLE, opcode_byte REDUCE])
          (pushClass INTLIST p))"
  by (simp add: pushIntList.simps Let_def push_OpCode_def fold_addIValue_VInt)

lemma memo_dom_kept:
  "advance n p p' \<Longrightarrow> memo_map p a \<noteq> None \<Longrightarrow> memo_map p' a \<noteq> None"
  using advance_dom [of n p p'] by (auto simp: dom_def)

lemma pushMemoization_binds:
  "getPointer v = Some a \<Longrightarrow> memo_map (pushMemoization v p) a = Some (memo_id p)"
  by (simp add: pushMemoization_eq)


lemma adv_bytes: "advance k p X \<Longrightarrow> advance k p (push_bytes bs X)"
  by (rule advance_then_bytes)

lemma adv_global: "advance k p X \<Longrightarrow> advance (k + 1) p (pushGlobal g X)"
  by (rule advance_trans [OF _ advance_pushGlobal])

lemma adv_class: "advance k p X \<Longrightarrow> advance (k + 1) p (pushClass c X)"
  unfolding pushClass_def by (rule adv_global)

lemma adv_memo:
  "getPointer v = Some a \<Longrightarrow> advance k p X \<Longrightarrow> advance (k + 1) p (pushMemoization v X)"
  by (rule advance_trans [OF _ advance_pushMemoization])

lemma adv_string:
  "advance k p X \<Longrightarrow> advance (k + 1) p (pushMemoizedString (VString a str) X)"
  unfolding pushMemoizedString_as by (rule adv_memo [OF _ adv_bytes]) simp

lemma adv_fold:
  "(\<And>x q. x \<in> set xs \<Longrightarrow> advance (b x) q (f x q)) \<Longrightarrow> advance k p X \<Longrightarrow>
   advance (k + sum_list (map b xs)) p (fold f xs X)"
  by (rule advance_trans [OF _ advance_fold])

lemma adv_literal: "advance k p X \<Longrightarrow> advance k p (X\<lparr>literal_tensors := l\<rparr>)"
  by (simp add: advance_def memo_ok_def)

lemma adv_table: "advance k p X \<Longrightarrow> advance k p (X\<lparr>tensor_table := l\<rparr>)"
  by (simp add: advance_def memo_ok_def)

lemma advance_pushLiteralTensor: "advance 6 p (pushLiteralTensor t p)"
proof -
  have "advance (0 + 1 + 1 + 1 + 1 + 1 + 1) p (pushLiteralTensor t p)"
    unfolding pushLiteralTensor.simps Let_def push_OpCode_eq pushInt_eq fold_pushInt_eq
      addIValue_VBool
    by (intro adv_literal adv_bytes adv_global adv_string advance_refl)
  then show ?thesis by (simp add: eval_nat_numeral)
qed

lemma advance_pushTensorReference: "advance 1 p (pushTensorReference t p)"
proof -
  have "advance (0 + 1) p (pushTensorReference t p)"
    unfolding pushTensorReference.simps Let_def push_OpCode_eq addIValue_VInt
    by (intro adv_bytes adv_table adv_class advance_refl)
  then show ?thesis by simp
qed

lemma advance_pushTensor: "advance 6 p (pushTensor t p)"
  unfolding pushTensor.simps
  by (auto split: option.splits intro: advance_pushLiteralTensor
      advance_mono [OF advance_pushTensorReference])

lemma advance_pushIntList: "advance 2 p (pushIntList a ns p)"
proof -
  have "advance (0 + 1 + 1) p (pushIntList a ns p)"
    unfolding pushIntList_as
    by (rule adv_memo [OF _ adv_bytes [OF adv_class [OF advance_refl]]]) simp
  then show ?thesis by (simp add: eval_nat_numeral)
qed


lemma advance_hit:
  "getPointer v = Some a \<Longrightarrow> memo_map p a = Some mid \<Longrightarrow> advance n p (addIValue v p)"
  using advance_mono [OF advance_push_bytes, of n p "BinGet_bytes mid"]
  by (simp add: addIValue_hit)

lemma advance_addIValue: "advance (puts_bound v) p (addIValue v p)"
proof (induction v arbitrary: p)
  case VNone
  show ?case by (simp add: addIValue.simps push_OpCode_eq advance_push_bytes)
next
  case (VBool b)
  show ?case by (simp add: addIValue_VBool advance_push_bytes)
next
  case (VInt n)
  show ?case by (simp add: addIValue_VInt advance_push_bytes)
next
  case (VDouble d)
  show ?case by (simp add: addIValue.simps pushDouble_eq advance_push_bytes)
next
  case (VString a str)
  show ?case
  proof (cases "memo_map p a")
    case None
    then have "addIValue (VString a str) p = pushMemoizedString (VString a str) p"
      by (simp add: addIValue.simps)
    then show ?thesis
      using adv_string [OF advance_refl, of p a str] by simp
  next
    case (Some mid)
    then show ?thesis by (simp add: advance_hit)
  qed
next
  case (VTuple a xs)
  show ?case
  proof (cases "memo_map p a")
    case None
    then have e: "addIValue (VTuple a xs) p = pushTuple a xs p"
      by (simp add: addIValue.simps)
    have "advance (0 + sum_list (map puts_bound xs) + 1) p (pushTuple a xs p)"
      unfolding pushTuple_as
      by (rule adv_memo [OF _ adv_bytes [OF adv_fold [OF _ adv_bytes [OF advance_refl]]]])
        (simp_all add: VTuple.IH)
    then show ?thesis by (simp add: e)
  next
    case (Some mid)
    then show ?thesis by (simp add: advance_hit)
  qed
next
  case (VGenericList a xs)
  show ?case
  proof (cases "memo_map p a")
    case None
    then have e: "addIValue (VGenericList a xs) p = pushList a xs p"
      by (simp add: addIValue.simps)
    have "advance (0 + 1 + sum_list (map puts_bound xs)) p (pushList a xs p)"
      unfolding pushList_as
      by (rule adv_bytes [OF adv_fold [OF _ adv_bytes [OF adv_memo [OF _ adv_bytes [OF advance_refl]]]]])
        (simp_all add: VGenericList.IH)
    then show ?thesis by (simp add: e)
  next
    case (Some mid)
    then show ?thesis by (simp add: advance_hit)
  qed
next
  case (VGenericDict a kvs)
  show ?case
  proof (cases "memo_map p a")
    case None
    then have e: "addIValue (VGenericDict a kvs) p = pushDict a kvs p"
      by (simp add: addIValue.simps)
    have pair: "\<And>pr q. pr \<in> set kvs \<Longrightarrow>
        advance (puts_bound (fst pr) + puts_bound (snd pr)) q
          (addIValue (snd pr) (addIValue (fst pr) q))"
    proof -
      fix pr q assume m: "pr \<in> set kvs"
      have 1: "advance (puts_bound (fst pr)) q (addIValue (fst pr) q)"
        by (rule VGenericDict.IH(1) [OF m]) (cases pr, simp)
      have 2: "advance (puts_bound (snd pr)) (addIValue (fst pr) q)
          (addIValue (snd pr) (addIValue (fst pr) q))"
        by (rule VGenericDict.IH(2) [OF m]) (cases pr, simp)
      from advance_trans [OF 1 2]
      show "advance (puts_bound (fst pr) + puts_bound (snd pr)) q
          (addIValue (snd pr) (addIValue (fst pr) q))" .
    qed
    have "advance (0 + 1
        + sum_list (map (\<lambda>pair. puts_bound (fst pair) + puts_bound (snd pair)) kvs)) p
        (pushDict a kvs p)"
      unfolding pushDict_as
      by (rule adv_bytes [OF adv_fold [OF _ adv_bytes [OF adv_memo [OF _ adv_bytes [OF advance_refl]]]]])
        (simp_all add: pair)
    then show ?thesis by (simp add: e)
  next
    case (Some mid)
    then show ?thesis by (simp add: advance_hit)
  qed
next
  case (VIntList a ns)
  show ?case
  proof (cases "memo_map p a")
    case None
    then have e: "addIValue (VIntList a ns) p = pushIntList a ns p"
      by (simp add: addIValue.simps)
    show ?thesis by (simp add: e advance_pushIntList)
  next
    case (Some mid)
    then show ?thesis by (simp add: advance_hit)
  qed
next
  case (VTensor t)
  show ?case by (simp add: addIValue_VTensor advance_pushTensor)
qed


lemma advance_fold_addIValue:
  "advance (sum_list (map puts_bound xs)) p (fold addIValue xs p)"
  by (rule advance_fold) (rule advance_addIValue)

lemma advance_fold_pairs:
  "advance (sum_list (map (\<lambda>pair. puts_bound (fst pair) + puts_bound (snd pair)) kvs)) p
     (fold (\<lambda>pair q. addIValue (snd pair) (addIValue (fst pair) q)) kvs p)"
  by (rule advance_fold) (rule advance_trans [OF advance_addIValue advance_addIValue])

lemma addIValue_binds:
  assumes g: "getPointer v = Some a"
  shows "memo_map (addIValue v p) a \<noteq> None"
proof (cases "memo_map p a")
  case (Some mid)
  then show ?thesis by (simp add: addIValue_hit [OF g])
next
  case None
  show ?thesis
  proof (cases v)
    case (VString a' str)
    with g None show ?thesis
      by (simp add: addIValue.simps pushMemoizedString_eq)
  next
    case (VTuple a' xs)
    with g None show ?thesis
      by (simp add: addIValue.simps pushTuple_as pushMemoization_binds)
  next
    case (VGenericList a' xs)
    with g have a: "a' = a" by simp
    have b: "memo_map (pushMemoization (VGenericList a xs)
        (push_bytes [opcode_byte EMPTY_LIST] p)) a \<noteq> None"
      by (simp add: pushMemoization_binds)
    have "memo_map (pushList a xs p) a \<noteq> None"
      unfolding pushList_as
      by (rule memo_dom_kept [OF adv_bytes [OF advance_trans
            [OF advance_push_bytes advance_fold_addIValue]] b])
    with VGenericList a None show ?thesis
      by (simp add: addIValue.simps)
  next
    case (VGenericDict a' kvs)
    with g have a: "a' = a" by simp
    have b: "memo_map (pushMemoization (VGenericDict a kvs)
        (push_bytes [opcode_byte EMPTY_DICT] p)) a \<noteq> None"
      by (simp add: pushMemoization_binds)
    have "memo_map (pushDict a kvs p) a \<noteq> None"
      unfolding pushDict_as
      by (rule memo_dom_kept [OF adv_bytes [OF advance_trans
            [OF advance_push_bytes advance_fold_pairs]] b])
    with VGenericDict a None show ?thesis
      by (simp add: addIValue.simps)
  next
    case (VIntList a' ns)
    with g None show ?thesis
      by (simp add: addIValue.simps pushIntList_as pushMemoization_binds)
  qed (use g in simp_all)
qed

lemma memo_ok_new_Pickler: "memo_ok (new_Pickler tt)"
  by (simp add: memo_ok_def)

text \<open>
  The tables of the pickler as long as the counter stays below \<open>2^32\<close>. A fresh pickler
  has empty tables and the counter \<open>0\<close>. \<^verbatim>\<open>pushNextBinPut\<close> writes a \<^verbatim>\<open>PUT\<close> with the
  current counter as its id, and the counter goes up by one, for values and for globals
  alike. After the emission of any value every id in the two tables is below the counter;
  a value whose pointer is in the table is emitted as the \<^verbatim>\<open>GET\<close> of its id and nothing
  else; and after the first emission of a memoizable value its pointer is in the table, so
  that emitting it again writes only a \<^verbatim>\<open>GET\<close>. This is a statement about the tables; the
  bytes of the \<^verbatim>\<open>PUT\<close> that binds an id are given by \<open>pushMemoization_eq\<close> and
  \<open>pushGlobal_eq\<close>.
\<close>

lemma memo_tables_stay_below_counter:
  assumes ok: "memo_ok p" and lt: "unat (memo_id p) + puts_bound v < 2 ^ 32"
  shows "memo_ok (new_Pickler tt) \<and> memo_id (new_Pickler tt) = 0
    \<and> pushNextBinPut p
        = (memo_id p, (push_bytes (BinPut_bytes (memo_id p)) p)\<lparr>memo_id := memo_id p + 1\<rparr>)
    \<and> memo_ok (addIValue v p)
    \<and> unat (memo_id p) \<le> unat (memo_id (addIValue v p))
    \<and> unat (memo_id (addIValue v p)) \<le> unat (memo_id p) + puts_bound v
    \<and> (\<forall>a mid. getPointer v = Some a \<and> memo_map p a = Some mid \<longrightarrow>
          unat mid < unat (memo_id p) \<and> addIValue v p = push_bytes (BinGet_bytes mid) p)
    \<and> (\<forall>a. getPointer v = Some a \<longrightarrow>
          (\<exists>mid. memo_map (addIValue v p) a = Some mid
             \<and> unat mid < unat (memo_id (addIValue v p))
             \<and> addIValue v (addIValue v p)
                 = push_bytes (BinGet_bytes mid) (addIValue v p)))
    \<and> (\<forall>g mid. memoized_strings_map p g = Some mid \<longrightarrow>
          unat mid < unat (memo_id p) \<and> pushGlobal g p = push_bytes (BinGet_bytes mid) p)
    \<and> (\<forall>g. memoized_strings_map p g = None \<longrightarrow>
          pushGlobal g p
            = (push_bytes (opcode_byte GLOBAL # g @ BinPut_bytes (memo_id p)) p)
                \<lparr>memo_id := memo_id p + 1,
                 memoized_strings_map := (memoized_strings_map p)(g \<mapsto> memo_id p)\<rparr>)"
proof -
  note adv = advance_ok [OF advance_addIValue ok lt]
  have 1: "memo_ok (new_Pickler tt) \<and> memo_id (new_Pickler tt) = 0"
    by (simp add: memo_ok_new_Pickler)
  have 2: "pushNextBinPut p
        = (memo_id p, (push_bytes (BinPut_bytes (memo_id p)) p)\<lparr>memo_id := memo_id p + 1\<rparr>)"
    by (rule pushNextBinPut_eq)
  have 3: "memo_ok (addIValue v p)" using adv by simp
  have 4: "unat (memo_id p) \<le> unat (memo_id (addIValue v p))
    \<and> unat (memo_id (addIValue v p)) \<le> unat (memo_id p) + puts_bound v" using adv by simp
  have 5: "\<forall>a mid. getPointer v = Some a \<and> memo_map p a = Some mid \<longrightarrow>
          unat mid < unat (memo_id p) \<and> addIValue v p = push_bytes (BinGet_bytes mid) p"
    using ok by (auto simp: memo_ok_def addIValue_hit)
  have 6: "\<forall>a. getPointer v = Some a \<longrightarrow>
          (\<exists>mid. memo_map (addIValue v p) a = Some mid
             \<and> unat mid < unat (memo_id (addIValue v p))
             \<and> addIValue v (addIValue v p)
                 = push_bytes (BinGet_bytes mid) (addIValue v p))"
  proof (intro allI impI)
    fix a assume g: "getPointer v = Some a"
    from addIValue_binds [OF g, of p] obtain mid
      where m: "memo_map (addIValue v p) a = Some mid" by auto
    from 3 m have "unat mid < unat (memo_id (addIValue v p))"
      by (auto simp: memo_ok_def)
    with m addIValue_hit [OF g m]
    show "\<exists>mid. memo_map (addIValue v p) a = Some mid
             \<and> unat mid < unat (memo_id (addIValue v p))
             \<and> addIValue v (addIValue v p)
                 = push_bytes (BinGet_bytes mid) (addIValue v p)"
      by blast
  qed
  have 7: "\<forall>g mid. memoized_strings_map p g = Some mid \<longrightarrow>
          unat mid < unat (memo_id p) \<and> pushGlobal g p = push_bytes (BinGet_bytes mid) p"
    using ok by (auto simp: memo_ok_def pushGlobal_eq)
  have 8: "\<forall>g. memoized_strings_map p g = None \<longrightarrow>
          pushGlobal g p
            = (push_bytes (opcode_byte GLOBAL # g @ BinPut_bytes (memo_id p)) p)
                \<lparr>memo_id := memo_id p + 1,
                 memoized_strings_map := (memoized_strings_map p)(g \<mapsto> memo_id p)\<rparr>"
    by (simp add: pushGlobal_eq)
  from 1 2 3 4 5 6 7 8 show ?thesis by blast
qed


text \<open>A tuple that holds the same string object twice.\<close>

definition shared_string_tuple :: IValue where
  "shared_string_tuple =
    VTuple (Obj 0) [VString (Obj 1) [0x61, 0x62], VString (Obj 1) [0x61, 0x62]]"

lemma shared_string_example:
  "memo_ok (new_Pickler None)
   \<and> unat (memo_id (new_Pickler None)) + puts_bound shared_string_tuple < 2 ^ 32
   \<and> memo_ok (addIValue shared_string_tuple (new_Pickler None))
   \<and> stack (addIValue shared_string_tuple (new_Pickler None))
       = [0x28, 0x58, 2, 0, 0, 0, 0x61, 0x62, 0x71, 0, 0x68, 0, 0x74, 0x71, 1]
   \<and> memo_id (addIValue shared_string_tuple (new_Pickler None)) = 2
   \<and> stack (addIValue shared_string_tuple (addIValue shared_string_tuple (new_Pickler None)))
       = [0x28, 0x58, 2, 0, 0, 0, 0x61, 0x62, 0x71, 0, 0x68, 0, 0x74, 0x71, 1, 0x68, 1]"
proof -
  have h1: "memo_ok (new_Pickler None)"
    by (simp add: memo_ok_def)
  have h2: "unat (memo_id (new_Pickler None)) + puts_bound shared_string_tuple < 2 ^ 32"
    by (simp add: shared_string_tuple_def)
  note t = memo_tables_stay_below_counter [OF h1 h2, of None]
  have s: "stack (addIValue shared_string_tuple (new_Pickler None))
       = [0x28, 0x58, 2, 0, 0, 0, 0x61, 0x62, 0x71, 0, 0x68, 0, 0x74, 0x71, 1]"
    by (simp add: shared_string_tuple_def enc_defs)
  have i: "memo_id (addIValue shared_string_tuple (new_Pickler None)) = 2"
    by (simp add: shared_string_tuple_def enc_defs)
  have m: "memo_map (addIValue shared_string_tuple (new_Pickler None)) (Obj 0) = Some 1"
    by (simp add: shared_string_tuple_def enc_defs)
  have g: "getPointer shared_string_tuple = Some (Obj 0)"
    by (simp add: shared_string_tuple_def)
  from t g m
  have "addIValue shared_string_tuple (addIValue shared_string_tuple (new_Pickler None))
      = push_bytes (BinGet_bytes 1) (addIValue shared_string_tuple (new_Pickler None))"
    by auto
  then have r: "stack (addIValue shared_string_tuple
        (addIValue shared_string_tuple (new_Pickler None)))
      = [0x28, 0x58, 2, 0, 0, 0, 0x61, 0x62, 0x71, 0, 0x68, 0, 0x74, 0x71, 1, 0x68, 1]"
    by (simp add: s BinGet_bytes_def)
  from h1 h2 t s i r show ?thesis by blast
qed

text \<open>A second handle on the storage of \<open>example_tensor\<close>, with one element.\<close>

definition example_view :: Tensor where
  "example_view = example_tensor\<lparr>sizes := [1], numel := 1\<rparr>"

theorem literal_tensors_are_not_deduplicated_witness:
  "tensor_table (new_Pickler None) = None
   \<and> storage example_tensor = storage example_view
   \<and> literal_tensors (addIValue (VTensor example_view)
         (addIValue (VTensor example_tensor) (new_Pickler None)))
       = [example_tensor, example_view]
   \<and> stack (finish (addIValue (VTensor example_view)
         (addIValue (VTensor example_tensor) (new_Pickler None))))
       = stack (addIValue (VTensor example_view)
           (addIValue (VTensor example_tensor) (new_Pickler None)))
         @ [0x2E, 0x80, 2, 0x28,
            0x58, 4, 0, 0, 0, 0x34, 0x30, 0x39, 0x36,
            0x58, 4, 0, 0, 0, 0x34, 0x30, 0x39, 0x36,
            0x74, 0x2E,
            2, 0, 0, 0, 0, 0, 0, 0, 0, 0, 0x80, 0x3F, 0, 0, 0, 0x40,
            1, 0, 0, 0, 0, 0, 0, 0, 0, 0, 0x80, 0x3F, 0, 0, 0, 0x40]"
proof -
  have h: "tensor_table (new_Pickler None) = None"
    by simp
  have e: "storage example_tensor = storage example_view"
    by (simp add: example_view_def)
  have k: "to_string 4096 = [0x34, 0x30, 0x39, 0x36]"
    by (simp add: to_string.simps)
  from literal_tensors_are_not_deduplicated [OF h, of example_tensor example_view] h e k
  show ?thesis
    by (simp add: key_entry_def key_string_def getStorageKey_def record_data_def
        example_view_def example_tensor_def word32_bytes_def word64_bytes_def)
qed

section \<open>The counter of memo ids wraps around\<close>

text \<open>
  A sequence of \<open>n\<close> distinct string objects, all empty, at the addresses \<open>0\<close> to
  \<open>n - 1\<close>, and the pickler of a session after \<^verbatim>\<open>start\<close> and \<^verbatim>\<open>startTuple\<close>.
\<close>

definition fresh_strings :: "nat \<Rightarrow> IValue list" where
  "fresh_strings n = map (\<lambda>i. VString (Obj i) []) [0..<n]"

definition session_start :: Pickler where
  "session_start = startTuple (start (new_Pickler None))"

lemma fresh_strings_Suc: "fresh_strings (Suc n) = fresh_strings n @ [VString (Obj n) []]"
  by (simp add: fresh_strings_def)

lemma addIValue_fresh_string:
  assumes "memo_map p a = None"
  shows "addIValue (VString a []) p
    = (push_bytes ([opcode_byte BINUNICODE, 0, 0, 0, 0] @ BinPut_bytes (memo_id p)) p)
        \<lparr>memoized_ivalues := memoized_ivalues p @ [VString a []], memo_id := memo_id p + 1,
         memo_map := (memo_map p)(a \<mapsto> memo_id p)\<rparr>"
  using assms by (simp add: addIValue.simps pushMemoizedString_eq word32_bytes_def)

text \<open>
  After the emission of \<open>n\<close> fresh strings the counter has gone up by \<open>n\<close>, as a 32-bit
  number, and the \<open>i\<close>-th string is bound to the counter's value at its emission.
\<close>

lemma fold_fresh_strings:
  assumes "\<forall>i. memo_map p (Obj i) = None"
  shows "memo_id (fold addIValue (fresh_strings n) p) = memo_id p + of_nat n
    \<and> (\<forall>i. memo_map (fold addIValue (fresh_strings n) p) (Obj i)
          = (if i < n then Some (memo_id p + of_nat i) else None))"
proof (induction n)
  case 0
  show ?case using assms by (simp add: fresh_strings_def)
next
  case (Suc n)
  let ?q = "fold addIValue (fresh_strings n) p"
  from Suc have id: "memo_id ?q = memo_id p + of_nat n"
    and mm: "\<And>i. memo_map ?q (Obj i) = (if i < n then Some (memo_id p + of_nat i) else None)"
    by simp_all
  have none: "memo_map ?q (Obj n) = None" by (simp add: mm)
  have step: "fold addIValue (fresh_strings (Suc n)) p = addIValue (VString (Obj n) []) ?q"
    by (simp add: fresh_strings_Suc)
  show ?case
    unfolding step addIValue_fresh_string [OF none]
    by (simp add: id mm less_Suc_eq)
qed

lemma session_start_fields:
  "memo_id session_start = 0" "memo_map session_start = Map.empty"
  "stack session_start = [0x80, 2, 0x28]"
  by (simp_all add: session_start_def startTuple_def start_def push_OpCode_eq push_uint8_def
      PROTOCOL_VERSION_def)

text \<open>
  Claim C8 says that in every stream of one session the memo ids are allocated densely
  from \<open>0\<close> in the order of first emission, and that a \<^verbatim>\<open>GET\<close> names the id an earlier
  \<^verbatim>\<open>PUT\<close> has bound. \<^verbatim>\<open>Pickler::pushNextBinPut\<close> asserts that \<^verbatim>\<open>memo_id_\<close> does not
  exceed the largest \<^verbatim>\<open>uint32_t\<close>, but \<^verbatim>\<open>memo_id_\<close> is a \<^verbatim>\<open>uint32_t\<close>: the assertion
  cannot fail, and the increment wraps around. In the session that emits \<open>2^32 + 1\<close>
  distinct strings, the counter is \<open>0\<close> again after \<open>2^32\<close> of them; the last string is
  written with \<^verbatim>\<open>BINPUT 0\<close>, as the first one was; the first and the last string are both
  bound to the id \<open>0\<close>; and emitting the first string once more writes \<^verbatim>\<open>BINGET 0\<close>,
  after the second \<^verbatim>\<open>BINPUT 0\<close> in the stream.
\<close>

theorem memo_id_wraps_around:
  "memo_id (fold addIValue (fresh_strings 4294967296) session_start) = 0
   \<and> stack (fold addIValue (fresh_strings 1) session_start)
       = [0x80, 2, 0x28, 0x58, 0, 0, 0, 0, 0x71, 0]
   \<and> stack (fold addIValue (fresh_strings 4294967297) session_start)
       = stack (fold addIValue (fresh_strings 4294967296) session_start)
         @ [0x58, 0, 0, 0, 0, 0x71, 0]
   \<and> memo_map (fold addIValue (fresh_strings 4294967297) session_start) (Obj 0) = Some 0
   \<and> memo_map (fold addIValue (fresh_strings 4294967297) session_start) (Obj 4294967296)
       = Some 0
   \<and> stack (addIValue (VString (Obj 0) [])
        (fold addIValue (fresh_strings 4294967297) session_start))
       = stack (fold addIValue (fresh_strings 4294967297) session_start) @ [0x68, 0]"
proof -
  have e: "\<forall>i. memo_map session_start (Obj i) = None"
    by (simp add: session_start_fields)
  note f = fold_fresh_strings [OF e]
  have 1: "memo_id (fold addIValue (fresh_strings 4294967296) session_start) = 0"
    using f [of 4294967296] by (simp add: session_start_fields)
  have n1: "memo_map (fold addIValue (fresh_strings 4294967296) session_start)
      (Obj 4294967296) = None"
    using f [of 4294967296] by simp
  have s1: "(1::nat) = Suc 0" by simp
  have 2: "stack (fold addIValue (fresh_strings 1) session_start)
       = [0x80, 2, 0x28, 0x58, 0, 0, 0, 0, 0x71, 0]"
    unfolding s1 fresh_strings_Suc
    by (simp add: fresh_strings_def addIValue_fresh_string session_start_fields BinPut_bytes_def)
  have s2: "(4294967297::nat) = Suc 4294967296" by simp
  have 3: "stack (fold addIValue (fresh_strings 4294967297) session_start)
       = stack (fold addIValue (fresh_strings 4294967296) session_start)
         @ [0x58, 0, 0, 0, 0, 0x71, 0]"
    unfolding s2 fresh_strings_Suc
    by (simp add: addIValue_fresh_string [OF n1] 1 BinPut_bytes_def)
  have 4: "memo_map (fold addIValue (fresh_strings 4294967297) session_start) (Obj 0) = Some 0"
    using f [of 4294967297] by (simp add: session_start_fields)
  have 5: "memo_map (fold addIValue (fresh_strings 4294967297) session_start) (Obj 4294967296)
       = Some 0"
    using f [of 4294967297] by (simp add: session_start_fields)
  have 6: "stack (addIValue (VString (Obj 0) [])
        (fold addIValue (fresh_strings 4294967297) session_start))
       = stack (fold addIValue (fresh_strings 4294967297) session_start) @ [0x68, 0]"
    using addIValue_hit [of "VString (Obj 0) []" "Obj 0", OF _ 4]
    by (simp add: BinGet_bytes_def)
  from 1 2 3 4 5 6 show ?thesis by blast
qed

end
